theory Spec2Isabelle
  imports Main
begin

section \<open>Data model\<close>

text \<open>
  Both scripts hand their data to pandas. A DataFrame is modelled as a list of
  column headers (label and dtype) and a list of rows, each row a list of cells in
  header order. Only what the pipeline can observe is kept:
  \<^item> \<open>dtype\<close>: the dtype classes the pipeline tells apart. \<open>select_dtypes\<close> with
    \<open>'number'\<close> picks the int64 and float64 columns (\<open>DInt\<close>, \<open>DFloat\<close>), with
    \<open>'object'\<close> the object columns (\<open>DObject\<close>); boolean and datetime64 columns are
    in neither.
  \<^item> \<open>cell\<close>: \<open>NA\<close> is the missing marker in all its spellings (NaN, None, NaT);
    \<open>isna\<close> does not tell them apart and neither does the pipeline. A number is
    written by its value, an integer: the pipeline computes with no number, and
    the one thing pandas does to numbers here, the conversion of an int64 to the
    nearest float64, is a function on integers. A \<open>Stamp\<close> is a timestamp (year,
    month, day, time of day), a \<open>Time\<close> a \<open>datetime.time\<close> object; a time of day is
    hour, minute, second, microsecond.
\<close>

datatype dtype = DInt | DFloat | DObject | DBool | DDatetime

datatype tod = Tod nat nat nat nat

datatype cell = NA | Num int | Str string | Bool bool | Stamp nat nat nat tod | Time tod

record table =
  cols :: "(string \<times> dtype) list"
  rows :: "cell list list"

text \<open>
  The exceptions that leave \<open>preprocess_data\<close>, under the names of the
  specification: the \<open>KeyError\<close> of \<open>pd.merge\<close> for a frame without the key
  column, the \<open>ValueError\<close> pandas raises where a repeated label stands for one
  column (in \<open>pd.merge\<close>, in the assignment of the filled columns, in
  \<open>to_datetime\<close>), its \<open>MergeError\<close>, and the \<open>KeyError\<close> of \<open>merged_df[...]\<close> for
  an absent column.
\<close>

datatype error =
  MissingKeyColumn
  | AmbiguousColumn string
  | MergeError
  | MissingExpectedColumn string

definition names :: "table \<Rightarrow> string list" where
  "names t = map fst (cols t)"

definition dtypes :: "table \<Rightarrow> dtype list" where
  "dtypes t = map snd (cols t)"

text \<open>Reading position \<open>i\<close> of a row; a row too short reads as missing.\<close>

definition cell_at :: "cell list \<Rightarrow> nat \<Rightarrow> cell" where
  "cell_at r i = (if i < length r then r ! i else NA)"

fun index_of :: "'a \<Rightarrow> 'a list \<Rightarrow> nat option" where
  "index_of x [] = None"
| "index_of x (y # ys) =
     (if x = y then Some 0 else map_option Suc (index_of x ys))"

text \<open>A frame is rectangular: every row has one cell per column.\<close>

definition rect :: "table \<Rightarrow> bool" where
  "rect t = list_all (\<lambda>r. length r = length (cols t)) (rows t)"

subsection \<open>From int64 to float64\<close>

text \<open>
  Where an int64 column meets missing cells or a float64 column, pandas converts
  it to float64. A float64 has 53 significant bits: an integer below \<open>2^53\<close> in
  magnitude is kept, a larger one is rounded to the nearest multiple of the unit
  of its binade (\<open>2\<close> below \<open>2^54\<close>, \<open>4\<close> below \<open>2^55\<close>, and so on), a tie going to
  the multiple with the even quotient. An int64 is below \<open>2^63\<close> in magnitude, so
  eleven doublings of the unit reach every one.
\<close>

definition round_to :: "int \<Rightarrow> int \<Rightarrow> int" where
  "round_to u a =
     (let q = a div u; r = a mod u
      in if u < 2 * r \<or> (2 * r = u \<and> odd q) then (q + 1) * u else q * u)"

fun ulp :: "nat \<Rightarrow> int \<Rightarrow> int \<Rightarrow> int" where
  "ulp 0 u a = u"
| "ulp (Suc k) u a = (if \<bar>a\<bar> < 9007199254740992 * u then u else ulp k (2 * u) a)"

definition float64_of_int :: "int \<Rightarrow> int" where
  "float64_of_int a = round_to (ulp 11 1 a) a"

definition to_float64 :: "cell \<Rightarrow> cell" where
  "to_float64 c = (case c of Num a \<Rightarrow> Num (float64_of_int a) | _ \<Rightarrow> c)"

text \<open>The conversion applied to the cells of a row at the given positions.\<close>

definition cast_at :: "nat list \<Rightarrow> cell list \<Rightarrow> cell list" where
  "cast_at ps r = map (\<lambda>(p, c). if p \<in> set ps then to_float64 c else c) (zip [0..<length r] r)"

text \<open>
  A column that receives missing cells keeps its dtype, except that an int64
  column becomes a float64 column and a boolean column an object column.
\<close>

definition upcast :: "bool \<Rightarrow> dtype \<Rightarrow> dtype" where
  "upcast gets_na d =
     (if gets_na then (case d of DInt \<Rightarrow> DFloat | DBool \<Rightarrow> DObject | _ \<Rightarrow> d) else d)"

section \<open>app.py: the outer join\<close>

text \<open>
  \<^verbatim>\<open>pd.merge(df_forest, df_grassland, on='AcceptedTSN', how='outer',
           suffixes=('_forest', '_grassland'))\<close>

  Two keys are compared the way pandas' hash table compares Python objects: by
  value, with \<open>True == 1\<close> and \<open>False == 0\<close>, and with every missing key equal to
  every other missing key (pandas joins null keys with each other). When one key
  column is int64 and the other float64, pandas first converts the int64 keys to
  float64 (\<open>join_key\<close>), so two int64 keys above \<open>2^53\<close> that round to the same
  float64 are joined with that float64. pandas refuses some other pairs of key
  dtypes (a datetime64 key against numbers, strings against numbers) with a
  \<open>ValueError\<close> that depends on the values; the model joins every pair, so what
  holds of every join of the model holds of every join pandas performs.
\<close>

definition py_key :: "cell \<Rightarrow> cell" where
  "py_key c = (case c of Bool b \<Rightarrow> Num (if b then 1 else 0) | _ \<Rightarrow> c)"

definition key_eq :: "cell \<Rightarrow> cell \<Rightarrow> bool" where
  "key_eq a b = (py_key a = py_key b)"

definition join_key :: "dtype \<Rightarrow> dtype \<Rightarrow> cell \<Rightarrow> cell" where
  "join_key own other c = (if own = DInt \<and> other = DFloat then to_float64 c else c)"

definition drop_nth :: "nat \<Rightarrow> 'a list \<Rightarrow> 'a list" where
  "drop_nth j xs = take j xs @ drop (Suc j) xs"

text \<open>
  A label that occurs on both sides gets its side's suffix; pandas computes the
  overlap after the right key column has been dropped, so the key is never in it.
\<close>

definition suffix_name :: "string list \<Rightarrow> string \<Rightarrow> string \<Rightarrow> string" where
  "suffix_name others sfx n = (if n \<in> set others then n @ sfx else n)"

text \<open>
  pandas raises \<open>MergeError\<close> when the suffixes make a label repeat. Within one
  side, position \<open>p\<close> is flagged when the new label already occurs to its left and
  the old one did not (\<open>suffix_dups\<close>); across the sides, a new label is flagged
  when it is an old label of the other side that kept its name (\<open>suffix_clash\<close>).
\<close>

definition suffix_dups :: "string list \<Rightarrow> string list \<Rightarrow> bool" where
  "suffix_dups old new =
     list_ex (\<lambda>p. new ! p \<in> set (take p new) \<and> old ! p \<notin> set (take p old))
       [0..<length old]"

definition suffix_clash :: "string list \<Rightarrow> string list \<Rightarrow> string list \<Rightarrow> bool" where
  "suffix_clash new other own =
     list_ex (\<lambda>x. x \<in> set other \<and> x \<notin> set own) new"

text \<open>
  The rows of the other frame that have the key \<open>k\<close>; \<open>g\<close> is the conversion of
  their keys for the comparison.
\<close>

definition matches :: "(cell \<Rightarrow> cell) \<Rightarrow> nat \<Rightarrow> cell \<Rightarrow> cell list list \<Rightarrow> cell list list" where
  "matches g j k rs = filter (\<lambda>r. key_eq k (g (cell_at r j))) rs"

text \<open>
  The rows of the full outer join. Every left row is paired with each right row of
  the same key, or padded with missing cells when there is none (\<open>left_rows\<close>);
  then come the right rows whose key no left row has (\<open>unmatched\<close>), padded on the
  left and carrying their own key (\<open>right_only_rows\<close>). \<open>gl\<close> and \<open>gr\<close> convert the
  keys of the two sides for the comparison, \<open>kl\<close> and \<open>kr\<close> for the key column of
  the result. In a column that receives missing cells and was an int64 column the
  cells are converted to float64 (\<open>lcast\<close>, \<open>rcast\<close> in \<open>merge_outer\<close>). pandas
  orders the result by key (and how it does so changed between releases); no
  statement below depends on the order of the rows.
\<close>

definition left_rows ::
  "(cell \<Rightarrow> cell) \<Rightarrow> (cell \<Rightarrow> cell) \<Rightarrow> (cell \<Rightarrow> cell) \<Rightarrow> nat \<Rightarrow> nat \<Rightarrow> nat
     \<Rightarrow> cell list list \<Rightarrow> cell list list \<Rightarrow> cell list list" where
  "left_rows gl gr kl i j rwidth ls rs =
     concat (map (\<lambda>lr.
        (case matches gr j (gl (cell_at lr i)) rs of
           [] \<Rightarrow> [lr[i := kl (cell_at lr i)] @ replicate rwidth NA]
         | ms \<Rightarrow> map (\<lambda>rr. lr[i := kl (cell_at lr i)] @ drop_nth j rr) ms)) ls)"

definition unmatched ::
  "(cell \<Rightarrow> cell) \<Rightarrow> (cell \<Rightarrow> cell) \<Rightarrow> nat \<Rightarrow> nat
     \<Rightarrow> cell list list \<Rightarrow> cell list list \<Rightarrow> cell list list" where
  "unmatched gl gr i j ls rs = filter (\<lambda>rr. matches gl i (gr (cell_at rr j)) ls = []) rs"

definition right_only_rows ::
  "(cell \<Rightarrow> cell) \<Rightarrow> nat \<Rightarrow> nat \<Rightarrow> nat \<Rightarrow> cell list list \<Rightarrow> cell list list" where
  "right_only_rows kr i j lwidth rs =
     map (\<lambda>rr. (replicate lwidth NA)[i := kr (cell_at rr j)] @ drop_nth j rr) rs"

text \<open>
  The key column of the result. Two key columns of one dtype give a column of that
  dtype, and two of different dtypes an object column, with the keys as they are;
  except for an int64 against a float64 column. There the result is the left
  column as it is when no row comes from the right frame alone, the right column
  as it is when the left frame has no row, and otherwise a float64 column to which
  the int64 keys have been converted (\<open>kl\<close> and \<open>kr\<close> in \<open>merge_outer\<close>).
\<close>

definition joined_key_dtype :: "dtype \<Rightarrow> dtype \<Rightarrow> bool \<Rightarrow> bool \<Rightarrow> dtype" where
  "joined_key_dtype dl dr right_only no_left =
     (if dl = dr then dl
      else if (dl = DInt \<and> dr = DFloat) \<or> (dl = DFloat \<and> dr = DInt)
           then (if \<not> right_only then dl else if no_left then dr else DFloat)
      else DObject)"

text \<open>The positions of the int64 columns among the dtypes \<open>ds\<close>.\<close>

definition int_positions :: "dtype list \<Rightarrow> nat list" where
  "int_positions ds = filter (\<lambda>p. ds ! p = DInt) [0..<length ds]"

definition merge_outer ::
  "table \<Rightarrow> table \<Rightarrow> string \<Rightarrow> string \<times> string \<Rightarrow> error + table" where
  "merge_outer l r k sfx =
     (case (index_of k (names l), index_of k (names r)) of
        (None, _) \<Rightarrow> Inl MissingKeyColumn
      | (_, None) \<Rightarrow> Inl MissingKeyColumn
      | (Some i, Some j) \<Rightarrow>
          if count_list (names l) k \<noteq> 1 \<or> count_list (names r) k \<noteq> 1
          then Inl (AmbiguousColumn k)
          else
            let rcols = drop_nth j (cols r);
                lnew = map (suffix_name (map fst rcols) (fst sfx)) (names l);
                rnew = map (suffix_name (names l) (snd sfx)) (map fst rcols);
                dl = snd (cols l ! i);
                dr = snd (cols r ! j);
                gl = join_key dl dr;
                gr = join_key dr dl;
                ronly = unmatched gl gr i j (rows l) (rows r);
                l_na = (ronly \<noteq> []);
                r_na = list_ex (\<lambda>lr. matches gr j (gl (cell_at lr i)) (rows r) = []) (rows l);
                kl = (\<lambda>c. if l_na then gl c else c);
                kr = (\<lambda>c. if rows l \<noteq> [] then gr c else c);
                lpart = left_rows gl gr kl i j (length rcols) (rows l) (rows r);
                rpart = right_only_rows kr i j (length (cols l)) ronly;
                ldt = (map (upcast l_na) (dtypes l))[i := joined_key_dtype dl dr l_na (rows l = [])];
                rdt = map (upcast r_na) (map snd rcols);
                lcast = (if l_na then filter (\<lambda>p. p \<noteq> i) (int_positions (dtypes l)) else []);
                rcast = (if r_na
                         then map (\<lambda>q. length (cols l) + q) (int_positions (map snd rcols))
                         else [])
            in if suffix_dups (names l) lnew \<or> suffix_dups (map fst rcols) rnew
                  \<or> suffix_clash lnew (map fst rcols) (names l)
                  \<or> suffix_clash rnew (names l) (map fst rcols)
               then Inl MergeError
               else Inr \<lparr> cols = zip lnew ldt @ zip rnew rdt,
                          rows = map (cast_at (lcast @ rcast)) (lpart @ rpart) \<rparr>)"

section \<open>app.py: filling and converting\<close>

text \<open>
  \<^verbatim>\<open>cols = merged_df.select_dtypes(include=[sel]).columns
  merged_df[cols] = merged_df[cols].fillna(v)\<close>

  \<open>merged_df[cols]\<close> takes every column that carries one of the labels, so when a
  selected label is repeated in the frame the right-hand side has more columns
  than \<open>cols\<close> has labels, and the assignment raises \<open>ValueError\<close>.
\<close>

definition fillna_cols :: "(dtype \<Rightarrow> bool) \<Rightarrow> cell \<Rightarrow> table \<Rightarrow> error + table" where
  "fillna_cols sel v t =
     (case find (\<lambda>(n, d). sel d \<and> count_list (names t) n \<noteq> 1) (cols t) of
        Some (n, d) \<Rightarrow> Inl (AmbiguousColumn n)
      | None \<Rightarrow>
          Inr (t \<lparr> rows := map (\<lambda>r. map2 (\<lambda>d c. if sel d \<and> c = NA then v else c) (dtypes t) r)
                            (rows t) \<rparr>))"

definition is_number :: "dtype \<Rightarrow> bool" where
  "is_number d = (d = DInt \<or> d = DFloat)"

definition is_object :: "dtype \<Rightarrow> bool" where
  "is_object d = (d = DObject)"

definition fill_missing :: "table \<Rightarrow> error + table" where
  "fill_missing t =
     (case fillna_cols is_number (Num 0) t of
        Inl e \<Rightarrow> Inl e
      | Inr t' \<Rightarrow> fillna_cols is_object (Str ''Unknown'') t')"

text \<open>
  \<^verbatim>\<open>pd.to_datetime(column, format=..., errors='coerce')\<close> with a format goes through
  pandas' \<open>strptime\<close>, cell by cell. The two formats of the pipeline are
  \<^verbatim>\<open>%Y-%m-%d\<close> (\<open>DateFormat\<close>) and \<^verbatim>\<open>%H:%M:%S\<close> (\<open>TimeFormat\<close>).

  Which strings \<open>strptime\<close> accepts under a format, and the timestamp it makes of
  one, is not in this repository: it depends on the release of pandas and, for the
  strings \<^verbatim>\<open>now\<close> and \<^verbatim>\<open>today\<close>, on the clock. It is the parameter \<open>sp\<close>, a
  function from format and string to year, month, day and time of day, or to
  nothing. What the model fixes is what pandas does with the cells that are not
  data strings:
  \<^item> a missing cell stays missing, and a timestamp is taken as it is;
  \<^item> the fill value \<^verbatim>\<open>Unknown\<close> matches neither format;
  \<^item> any other object is matched through its \<open>str()\<close>. That of a number or of a
    boolean matches neither format. That of a \<open>datetime.time\<close> is \<^verbatim>\<open>HH:MM:SS\<close>,
    which \<^verbatim>\<open>%H:%M:%S\<close> reads back as that time on 1900-01-01, followed by
    \<^verbatim>\<open>.ffffff\<close> when the microseconds are not zero, which \<^verbatim>\<open>%H:%M:%S\<close> does not
    match; \<^verbatim>\<open>%Y-%m-%d\<close> matches neither.

  Whatever does not match becomes NaT, never an exception.
\<close>

datatype format = DateFormat | TimeFormat

type_synonym strptime = "format \<Rightarrow> string \<Rightarrow> (nat \<times> nat \<times> nat \<times> tod) option"

fun to_datetime_cell :: "strptime \<Rightarrow> format \<Rightarrow> cell \<Rightarrow> cell" where
  "to_datetime_cell sp f NA = NA"
| "to_datetime_cell sp f (Str s) =
     (if s = ''Unknown'' then NA
      else (case sp f s of None \<Rightarrow> NA | Some (y, mo, d, t) \<Rightarrow> Stamp y mo d t))"
| "to_datetime_cell sp f (Stamp y mo d t) = Stamp y mo d t"
| "to_datetime_cell sp f (Time (Tod h m s us)) =
     (if f = TimeFormat \<and> us = 0 then Stamp 1900 1 1 (Tod h m s us) else NA)"
| "to_datetime_cell sp f (Num n) = NA"
| "to_datetime_cell sp f (Bool b) = NA"

text \<open>\<^verbatim>\<open>.dt.time\<close>: the time of day of each timestamp, NaT where there is none.\<close>

fun dt_time :: "cell \<Rightarrow> cell" where
  "dt_time (Stamp y mo d t) = Time t"
| "dt_time c = NA"

definition to_date :: "strptime \<Rightarrow> cell \<Rightarrow> cell" where
  "to_date sp c = to_datetime_cell sp DateFormat c"

definition to_time :: "strptime \<Rightarrow> cell \<Rightarrow> cell" where
  "to_time sp c = dt_time (to_datetime_cell sp TimeFormat c)"

text \<open>
  \<^verbatim>\<open>merged_df[n] = f(merged_df[n])\<close>: reading a label the frame does not have
  raises \<open>KeyError\<close>; a label that occurs twice selects a frame, not a column, which
  \<open>to_datetime\<close> rejects. The column keeps its place and takes the dtype of the
  result.
\<close>

definition assign_col :: "string \<Rightarrow> (cell \<Rightarrow> cell) \<Rightarrow> dtype \<Rightarrow> table \<Rightarrow> error + table" where
  "assign_col n f d t =
     (case index_of n (names t) of
        None \<Rightarrow> Inl (MissingExpectedColumn n)
      | Some i \<Rightarrow>
          if count_list (names t) n \<noteq> 1 then Inl (AmbiguousColumn n)
          else Inr \<lparr> cols = (cols t)[i := (n, d)],
                     rows = map (\<lambda>r. r[i := f (cell_at r i)]) (rows t) \<rparr>)"

text \<open>The six assignments of the third block of \<open>preprocess_data\<close>, in its order.\<close>

definition conversions :: "strptime \<Rightarrow> (string \<times> (cell \<Rightarrow> cell) \<times> dtype) list" where
  "conversions sp =
     [(''Date_forest'', to_date sp, DDatetime),
      (''Date_grassland'', to_date sp, DDatetime),
      (''Start_Time_forest'', to_time sp, DObject),
      (''End_Time_forest'', to_time sp, DObject),
      (''Start_Time_grassland'', to_time sp, DObject),
      (''End_Time_grassland'', to_time sp, DObject)]"

fun run_conversions ::
  "(string \<times> (cell \<Rightarrow> cell) \<times> dtype) list \<Rightarrow> table \<Rightarrow> error + table" where
  "run_conversions [] t = Inr t"
| "run_conversions ((n, f, d) # cs) t =
     (case assign_col n f d t of Inl e \<Rightarrow> Inl e | Inr t' \<Rightarrow> run_conversions cs t')"

definition convert_types :: "strptime \<Rightarrow> table \<Rightarrow> error + table" where
  "convert_types sp t = run_conversions (conversions sp) t"

text \<open>The second and third block together: the normalisation of a merged frame.\<close>

definition normalize_table :: "strptime \<Rightarrow> table \<Rightarrow> error + table" where
  "normalize_table sp t =
     (case fill_missing t of Inl e \<Rightarrow> Inl e | Inr t' \<Rightarrow> convert_types sp t')"

text \<open>
  \<open>preprocess_data\<close>: \<open>None\<close> for a missing frame, otherwise merge, fill, convert; an
  exception of a stage leaves the function.
\<close>

definition preprocess_data ::
  "strptime \<Rightarrow> table option \<Rightarrow> table option \<Rightarrow> error + table option" where
  "preprocess_data sp df_forest df_grassland =
     (case (df_forest, df_grassland) of
        (Some f, Some g) \<Rightarrow>
          (case merge_outer f g ''AcceptedTSN'' (''_forest'', ''_grassland'') of
             Inl e \<Rightarrow> Inl e
           | Inr merged_df \<Rightarrow>
               (case normalize_table sp merged_df of Inl e \<Rightarrow> Inl e | Inr t \<Rightarrow> Inr (Some t)))
      | _ \<Rightarrow> Inr None)"

section \<open>app.py: loading\<close>

text \<open>
  The files the loader can see: a path leads to nothing, to something \<open>pd.ExcelFile\<close>
  cannot read, or to a workbook, a list of named sheets already parsed into frames.
\<close>

datatype workbook = Workbook "(string \<times> table) list" | Unreadable

datatype load_error = FileNotFound | OtherFailure

text \<open>\<^verbatim>\<open>sheet_dict[sheet_name] = ...\<close>: a Python dict keeps the place of a key it already has.\<close>

fun dict_put :: "(string \<times> 'v) list \<Rightarrow> string \<Rightarrow> 'v \<Rightarrow> (string \<times> 'v) list" where
  "dict_put [] k v = [(k, v)]"
| "dict_put ((k', v') # d) k v = (if k' = k then (k, v) # d else (k', v') # dict_put d k v)"

text \<open>The loop over \<open>sheet_names\<close>, parsing each sheet into the dict.\<close>

fun parse_sheets ::
  "(string \<times> table) list \<Rightarrow> string list \<Rightarrow> (string \<times> table) list \<Rightarrow> (string \<times> table) list" where
  "parse_sheets wb [] sheet_dict = sheet_dict"
| "parse_sheets wb (sheet_name # ns) sheet_dict =
     parse_sheets wb ns
       (case map_of wb sheet_name of
          None \<Rightarrow> sheet_dict
        | Some t \<Rightarrow> dict_put sheet_dict sheet_name t)"

text \<open>
  \<^verbatim>\<open>pd.concat(frames, ignore_index=True)\<close>: no frame at all is a \<open>ValueError\<close>.
  Otherwise the labels are those of the frames in order of first appearance, the
  rows are the rows of the frames one after the other, a frame that lacks a label
  contributing missing cells. A column keeps a dtype all its frames agree on, is
  a float64 column when its frames have it as int64 and float64 columns, and an
  object column otherwise.
\<close>

definition first_seen :: "'a list \<Rightarrow> 'a list" where
  "first_seen xs = rev (remdups (rev xs))"

definition concat_dtype :: "table list \<Rightarrow> string \<Rightarrow> dtype" where
  "concat_dtype ts n =
     (let ds = concat (map (\<lambda>t. case index_of n (names t) of
                                   None \<Rightarrow> [] | Some i \<Rightarrow> [dtypes t ! i]) ts);
          gets_na = list_ex (\<lambda>t. n \<notin> set (names t)) ts
      in case ds of
           [] \<Rightarrow> DObject
         | d # ds' \<Rightarrow>
             upcast gets_na
               (if list_all (\<lambda>d'. d' = d) ds' then d
                else if list_all is_number (d # ds') then DFloat else DObject))"

definition concat_frames :: "table list \<Rightarrow> load_error + table" where
  "concat_frames ts =
     (if ts = [] then Inl OtherFailure
      else
        let labels = first_seen (concat (map names ts))
        in Inr \<lparr> cols = map (\<lambda>n. (n, concat_dtype ts n)) labels,
                  rows = concat (map (\<lambda>t. map (\<lambda>r. map (\<lambda>n.
                            (case index_of n (names t) of
                               None \<Rightarrow> NA
                             | Some i \<Rightarrow>
                                 if dtypes t ! i = DInt \<and> concat_dtype ts n = DFloat
                                 then to_float64 (cell_at r i) else cell_at r i)) labels)
                              (rows t)) ts) \<rparr>)"

text \<open>One of the two halves of the \<open>try\<close> block: open, parse every sheet, concatenate.\<close>

definition read_workbook :: "(string \<Rightarrow> workbook option) \<Rightarrow> string \<Rightarrow> load_error + table" where
  "read_workbook fs file_path =
     (case fs file_path of
        None \<Rightarrow> Inl FileNotFound
      | Some Unreadable \<Rightarrow> Inl OtherFailure
      | Some (Workbook sheets) \<Rightarrow>
          concat_frames (map snd (parse_sheets sheets (map fst sheets) [])))"

text \<open>
  \<open>load_data\<close>: both results start as \<open>None\<close>; the forest frame is assigned before
  the grassland file is opened; an exception of either half is reported with
  \<open>st.error\<close> (the list of reports is the second component) and the function
  returns what has been assigned so far.
\<close>

definition load_data ::
  "(string \<Rightarrow> workbook option) \<Rightarrow> string \<Rightarrow> string
     \<Rightarrow> (table option \<times> table option) \<times> load_error list" where
  "load_data fs file_path_1 file_path_2 =
     (case read_workbook fs file_path_1 of
        Inl e \<Rightarrow> ((None, None), [e])
      | Inr combined_data_1 \<Rightarrow>
          (case read_workbook fs file_path_2 of
             Inl e \<Rightarrow> ((Some combined_data_1, None), [e])
           | Inr combined_data_2 \<Rightarrow> ((Some combined_data_1, Some combined_data_2), [])))"

text \<open>
  The script after the two definitions: load, and preprocess only when both frames
  are there; \<open>processed_df\<close> is the result.
\<close>

definition run_app ::
  "strptime \<Rightarrow> (string \<Rightarrow> workbook option) \<Rightarrow> string \<Rightarrow> string \<Rightarrow> error + table option" where
  "run_app sp fs file_path_forest file_path_grassland =
     (case fst (load_data fs file_path_forest file_path_grassland) of
        (Some forest_df, Some grassland_df) \<Rightarrow>
          preprocess_data sp (Some forest_df) (Some grassland_df)
      | _ \<Rightarrow> Inr None)"

section \<open>birds.py: loading and preprocessing\<close>

text \<open>
  In \<open>birds.py\<close> the row index of a frame matters, so a frame is a table with the
  list of its row labels, one per row. \<open>pd.read_csv\<close> gives the default index
  \<open>0, 1, 2, ...\<close> to a plain file; when the rows of the file have one field more
  than the header, it takes the first field of each row as the label of the row.

  The files \<open>pd.read_csv\<close> can see: nothing, something it cannot parse, or a frame.
\<close>

type_synonym frame = "cell list \<times> table"

datatype csv = Csv frame | BadCsv

definition range_index :: "nat \<Rightarrow> cell list" where
  "range_index n = map (\<lambda>k. Num (int k)) [0..<n]"

definition empty_frame :: frame where
  "empty_frame = ([], \<lparr> cols = [], rows = [] \<rparr>)"

text \<open>\<^verbatim>\<open>df.columns = [col + suffix for col in df.columns]\<close>\<close>

definition add_suffix :: "string \<Rightarrow> table \<Rightarrow> table" where
  "add_suffix sfx t = t \<lparr> cols := map (\<lambda>(n, d). (n @ sfx, d)) (cols t) \<rparr>"

text \<open>\<^verbatim>\<open>'Date' in col\<close>: the label has \<open>Date\<close> as a substring.\<close>

fun contains :: "string \<Rightarrow> string \<Rightarrow> bool" where
  "contains p [] = (p = [])"
| "contains p (c # cs) = (take (length p) (c # cs) = p \<or> contains p cs)"

text \<open>
  \<^verbatim>\<open>df[col] = pd.to_datetime(df[col], errors='coerce')\<close> for the column at place \<open>p\<close>.
  Without a format pandas infers one from the column and parses each cell with it;
  what it infers is not in this repository, so the conversion of a cell, given its
  column, is the parameter \<open>infer\<close>. The result is a datetime64 column.
\<close>

definition to_datetime_at :: "(cell list \<Rightarrow> cell \<Rightarrow> cell) \<Rightarrow> table \<Rightarrow> nat \<Rightarrow> table" where
  "to_datetime_at infer t p =
     (let col = map (\<lambda>r. cell_at r p) (rows t)
      in \<lparr> cols = (cols t)[p := (fst (cols t ! p), DDatetime)],
           rows = map (\<lambda>r. r[p := infer col (cell_at r p)]) (rows t) \<rparr>)"

text \<open>The loop over the labels that contain \<open>Date\<close>.\<close>

definition convert_date_cols :: "(cell list \<Rightarrow> cell \<Rightarrow> cell) \<Rightarrow> table \<Rightarrow> table" where
  "convert_date_cols infer t =
     foldl (to_datetime_at infer) t
       (filter (\<lambda>p. contains ''Date'' (names t ! p)) [0..<length (cols t)])"

text \<open>\<^verbatim>\<open>df.head(n)\<close>: the first \<open>n\<close> rows with their labels.\<close>

definition head :: "nat \<Rightarrow> frame \<Rightarrow> frame" where
  "head n fr = (take n (fst fr), (snd fr) \<lparr> rows := take n (rows (snd fr)) \<rparr>)"

text \<open>
  A frame laid out on the row labels \<open>idx\<close>: under each label the row that carries
  it, or missing cells when the frame has none. A column that receives missing
  cells changes its dtype as in the join.
\<close>

definition reindex :: "cell list \<Rightarrow> frame \<Rightarrow> table" where
  "reindex idx fr =
     (let t = snd fr;
          gets_na = list_ex (\<lambda>x. x \<notin> set (fst fr)) idx
      in \<lparr> cols = map (\<lambda>(n, d). (n, upcast gets_na d)) (cols t),
           rows = map (\<lambda>x. case map_of (zip (fst fr) (rows t)) x of
                             None \<Rightarrow> replicate (length (cols t)) NA
                           | Some r \<Rightarrow>
                               cast_at (if gets_na then int_positions (dtypes t) else []) r)
                    idx \<rparr>)"

text \<open>
  \<^verbatim>\<open>pd.concat([a, b], axis=1)\<close> puts the columns of \<open>b\<close> beside those of \<open>a\<close>, row
  label by row label. When the two frames have the same row labels in the same
  order, row \<open>k\<close> of the one stands beside row \<open>k\<close> of the other. Otherwise the
  result has one row for each label of either frame (those of \<open>a\<close>, then the new
  ones of \<open>b\<close>; no statement below depends on their order), and a frame that has a
  label twice cannot be laid out on them: pandas raises \<open>InvalidIndexError\<close>.
\<close>

definition concat_side_by_side :: "frame \<Rightarrow> frame \<Rightarrow> load_error + frame" where
  "concat_side_by_side a b =
     (if fst a = fst b
      then Inr (fst a, \<lparr> cols = cols (snd a) @ cols (snd b),
                         rows = map2 (\<lambda>ra rb. ra @ rb) (rows (snd a)) (rows (snd b)) \<rparr>)
      else if \<not> distinct (fst a) \<or> \<not> distinct (fst b) then Inl OtherFailure
      else
        let idx = first_seen (fst a @ fst b)
        in Inr (idx, \<lparr> cols = cols (reindex idx a) @ cols (reindex idx b),
                         rows = map2 (\<lambda>ra rb. ra @ rb)
                                  (rows (reindex idx a)) (rows (reindex idx b)) \<rparr>))"

text \<open>
  \<open>load_and_preprocess_data\<close>: the merged frame and the two habitat frames, or
  three empty frames and a report when a file is missing or anything else fails.
\<close>

definition load_and_preprocess_data ::
  "(cell list \<Rightarrow> cell \<Rightarrow> cell) \<Rightarrow> (string \<Rightarrow> csv option) \<Rightarrow> string \<Rightarrow> string
     \<Rightarrow> (frame \<times> frame \<times> frame) \<times> load_error list" where
  "load_and_preprocess_data infer fs forest_path grassland_path =
     (case fs forest_path of
        None \<Rightarrow> ((empty_frame, empty_frame, empty_frame), [FileNotFound])
      | Some BadCsv \<Rightarrow> ((empty_frame, empty_frame, empty_frame), [OtherFailure])
      | Some (Csv f) \<Rightarrow>
          (case fs grassland_path of
             None \<Rightarrow> ((empty_frame, empty_frame, empty_frame), [FileNotFound])
           | Some BadCsv \<Rightarrow> ((empty_frame, empty_frame, empty_frame), [OtherFailure])
           | Some (Csv g) \<Rightarrow>
               let forest_df = (fst f, convert_date_cols infer (add_suffix ''_forest'' (snd f)));
                   grassland_df =
                     (fst g, convert_date_cols infer (add_suffix ''_grassland'' (snd g)));
                   max_rows = min (length (rows (snd forest_df))) (length (rows (snd grassland_df)))
               in (case concat_side_by_side (head max_rows forest_df) (head max_rows grassland_df) of
                     Inl e \<Rightarrow> ((empty_frame, empty_frame, empty_frame), [e])
                   | Inr merged_df \<Rightarrow> ((merged_df, forest_df, grassland_df), []))))"

section \<open>Vocabulary of the statements\<close>

text \<open>
  The effect of the two \<open>fillna\<close> calls on one cell of a column of dtype \<open>d\<close>, and
  the effect of the six assignments on one cell, and on the dtype, of a column
  labelled \<open>n\<close>. The lemmas below show that \<open>fill_missing\<close> and \<open>run_conversions\<close>
  compute exactly these on a rectangular frame.
\<close>

definition fill_cell :: "dtype \<Rightarrow> cell \<Rightarrow> cell" where
  "fill_cell d c =
     (if c = NA
      then (if is_number d then Num 0 else if is_object d then Str ''Unknown'' else NA)
      else c)"

definition conv_of :: "(string \<times> (cell \<Rightarrow> cell) \<times> dtype) list \<Rightarrow> string \<Rightarrow> cell \<Rightarrow> cell" where
  "conv_of cs n c = (case map_of cs n of None \<Rightarrow> c | Some (f, d) \<Rightarrow> f c)"

definition dtype_of :: "(string \<times> (cell \<Rightarrow> cell) \<times> dtype) list \<Rightarrow> string \<Rightarrow> dtype \<Rightarrow> dtype" where
  "dtype_of cs n d0 = (case map_of cs n of None \<Rightarrow> d0 | Some (f, d) \<Rightarrow> d)"

text \<open>The labels of the six designated columns.\<close>

definition date_columns :: "string list" where
  "date_columns = [''Date_forest'', ''Date_grassland'']"

definition time_columns :: "string list" where
  "time_columns =
     [''Start_Time_forest'', ''End_Time_forest'', ''Start_Time_grassland'', ''End_Time_grassland'']"

text \<open>The format under which the pipeline parses the designated column \<open>n\<close>.\<close>

definition format_of :: "string \<Rightarrow> format" where
  "format_of n = (if n \<in> set date_columns then DateFormat else TimeFormat)"

text \<open>The cell of row \<open>k\<close> under the label \<open>n\<close>.\<close>

definition cell_of :: "table \<Rightarrow> nat \<Rightarrow> string \<Rightarrow> cell" where
  "cell_of t k n =
     (case index_of n (names t) of None \<Rightarrow> NA | Some i \<Rightarrow> cell_at (rows t ! k) i)"

text \<open>The join as \<open>preprocess_data\<close> calls it.\<close>

definition merge_habitats :: "table \<Rightarrow> table \<Rightarrow> error + table" where
  "merge_habitats f g = merge_outer f g ''AcceptedTSN'' (''_forest'', ''_grassland'')"

text \<open>The species key of a row of a frame, and the dtype of the key column.\<close>

definition key_of :: "table \<Rightarrow> cell list \<Rightarrow> cell" where
  "key_of t row =
     (case index_of ''AcceptedTSN'' (names t) of None \<Rightarrow> NA | Some i \<Rightarrow> cell_at row i)"

definition key_dtype :: "table \<Rightarrow> dtype" where
  "key_dtype t =
     (case index_of ''AcceptedTSN'' (names t) of None \<Rightarrow> DObject | Some i \<Rightarrow> snd (cols t ! i))"

text \<open>
  One key column is an int64 column and the other a float64 column: the one case
  in which the join converts keys before it compares them.
\<close>

definition int_float_keys :: "table \<Rightarrow> table \<Rightarrow> bool" where
  "int_float_keys f g =
     (key_dtype f = DInt \<and> key_dtype g = DFloat \<or> key_dtype f = DFloat \<and> key_dtype g = DInt)"



text \<open>
  No time of day in one of the four designated time columns has a fraction of a
  second.
\<close>

definition whole_second :: "cell \<Rightarrow> bool" where
  "whole_second c = (case c of Time (Tod h m s us) \<Rightarrow> us = 0 | _ \<Rightarrow> True)"

definition times_whole :: "table \<Rightarrow> bool" where
  "times_whole t =
     list_all (\<lambda>r. list_all (\<lambda>(n, c). n \<in> set time_columns \<longrightarrow> whole_second c) (zip (names t) r))
       (rows t)"

text \<open>
  The totality the specification asks of the output: no cell of a numeric or object
  column is missing; and the stronger reading, that no cell at all is missing. A
  sentinel is one of the two fill values.
\<close>

definition no_missing_in_role_columns :: "table \<Rightarrow> bool" where
  "no_missing_in_role_columns t =
     list_all (\<lambda>r. list_all (\<lambda>(d, c). (is_number d \<or> is_object d) \<longrightarrow> c \<noteq> NA) (zip (dtypes t) r))
       (rows t)"

definition no_missing_cells :: "table \<Rightarrow> bool" where
  "no_missing_cells t = list_all (\<lambda>r. list_all (\<lambda>c. c \<noteq> NA) r) (rows t)"


text \<open>
  The row index \<open>read_csv\<close> gives a plain file, and the frames \<open>pd.concat\<close> sees
  in \<open>birds.py\<close>: the first \<open>min(len, len)\<close> rows of each habitat frame.
\<close>

definition default_index :: "frame \<Rightarrow> bool" where
  "default_index fr = (fst fr = range_index (length (rows (snd fr))))"

subsection \<open>Sample frames\<close>

text \<open>
  What \<open>strptime\<close> makes of the strings of the samples below: a date and four
  times of day in the form their format describes. Every other string of the
  samples is one that neither format matches.
\<close>

definition strptime_eg :: strptime where
  "strptime_eg f s =
     (case f of
        DateFormat \<Rightarrow>
          (if s = ''2021-06-01'' then Some (2021, 6, 1, Tod 0 0 0 0) else None)
      | TimeFormat \<Rightarrow>
          (if s = ''06:15:00'' then Some (1900, 1, 1, Tod 6 15 0 0)
           else if s = ''06:25:00'' then Some (1900, 1, 1, Tod 6 25 0 0)
           else if s = ''07:00:00'' then Some (1900, 1, 1, Tod 7 0 0 0)
           else if s = ''07:10:00'' then Some (1900, 1, 1, Tod 7 10 0 0)
           else None))"

text \<open>
  One forest observation of species 1 and one grassland observation of species 2
  (Scenario A of the specification, with the columns the pipeline needs), the
  frame their outer join gives on these definitions, and its normalisation.
\<close>

definition forest_eg :: table where
  "forest_eg =
     \<lparr> cols = [(''AcceptedTSN'', DInt), (''Date'', DObject), (''Start_Time'', DObject),
               (''End_Time'', DObject), (''Common_Name'', DObject), (''Temperature'', DInt)],
       rows = [[Num 1, Str ''2021-06-01'', Str ''06:15:00'', Str ''06:25:00'',
                Str ''Wood Thrush'', Num 19]] \<rparr>"

definition grassland_eg :: table where
  "grassland_eg =
     \<lparr> cols = [(''AcceptedTSN'', DInt), (''Date'', DObject), (''Start_Time'', DObject),
               (''End_Time'', DObject), (''Common_Name'', DObject), (''Temperature'', DInt)],
       rows = [[Num 2, Str ''not-a-date'', Str ''07:00:00'', Str ''07:10:00'',
                Str ''Bobolink'', Num 23]] \<rparr>"

definition merged_eg :: table where
  "merged_eg =
     \<lparr> cols = [(''AcceptedTSN'', DInt), (''Date_forest'', DObject),
               (''Start_Time_forest'', DObject), (''End_Time_forest'', DObject),
               (''Common_Name_forest'', DObject), (''Temperature_forest'', DFloat),
               (''Date_grassland'', DObject), (''Start_Time_grassland'', DObject),
               (''End_Time_grassland'', DObject), (''Common_Name_grassland'', DObject),
               (''Temperature_grassland'', DFloat)],
       rows = [[Num 1, Str ''2021-06-01'', Str ''06:15:00'', Str ''06:25:00'',
                Str ''Wood Thrush'', Num 19, NA, NA, NA, NA, NA],
               [Num 2, NA, NA, NA, NA, NA, Str ''not-a-date'', Str ''07:00:00'',
                Str ''07:10:00'', Str ''Bobolink'', Num 23]] \<rparr>"

definition filled_eg :: table where
  "filled_eg =
     \<lparr> cols = cols merged_eg,
       rows = [[Num 1, Str ''2021-06-01'', Str ''06:15:00'', Str ''06:25:00'',
                Str ''Wood Thrush'', Num 19, Str ''Unknown'', Str ''Unknown'', Str ''Unknown'',
                Str ''Unknown'', Num 0],
               [Num 2, Str ''Unknown'', Str ''Unknown'', Str ''Unknown'', Str ''Unknown'', Num 0,
                Str ''not-a-date'', Str ''07:00:00'', Str ''07:10:00'', Str ''Bobolink'',
                Num 23]] \<rparr>"

definition normalized_eg :: table where
  "normalized_eg =
     \<lparr> cols = [(''AcceptedTSN'', DInt), (''Date_forest'', DDatetime),
               (''Start_Time_forest'', DObject), (''End_Time_forest'', DObject),
               (''Common_Name_forest'', DObject), (''Temperature_forest'', DFloat),
               (''Date_grassland'', DDatetime), (''Start_Time_grassland'', DObject),
               (''End_Time_grassland'', DObject), (''Common_Name_grassland'', DObject),
               (''Temperature_grassland'', DFloat)],
       rows = [[Num 1, Stamp 2021 6 1 (Tod 0 0 0 0), Time (Tod 6 15 0 0), Time (Tod 6 25 0 0),
                Str ''Wood Thrush'', Num 19, NA, NA, NA, Str ''Unknown'', Num 0],
               [Num 2, NA, NA, NA, Str ''Unknown'', Num 0, NA, Time (Tod 7 0 0 0),
                Time (Tod 7 10 0 0), Str ''Bobolink'', Num 23]] \<rparr>"

text \<open>
  The same two observations as a spreadsheet reader delivers them when the date and
  start-time cells hold date-times and the end-time cells hold times of day: the
  date and start-time columns are datetime64 columns, the end-time column an object
  column of \<open>datetime.time\<close> values. The forest start time has a fraction of a
  second.
\<close>

definition forest_xl_eg :: table where
  "forest_xl_eg =
     \<lparr> cols = [(''AcceptedTSN'', DInt), (''Date'', DDatetime), (''Start_Time'', DDatetime),
               (''End_Time'', DObject)],
       rows = [[Num 1, Stamp 2021 6 1 (Tod 0 0 0 0), Stamp 2021 6 1 (Tod 6 15 0 250),
                Time (Tod 6 25 0 0)]] \<rparr>"

definition grassland_xl_eg :: table where
  "grassland_xl_eg =
     \<lparr> cols = [(''AcceptedTSN'', DInt), (''Date'', DDatetime), (''Start_Time'', DDatetime),
               (''End_Time'', DObject)],
       rows = [[Num 2, Stamp 2021 7 1 (Tod 0 0 0 0), Stamp 2021 7 1 (Tod 7 0 0 0),
                Time (Tod 7 10 0 0)]] \<rparr>"

definition merged_xl_eg :: table where
  "merged_xl_eg =
     \<lparr> cols = [(''AcceptedTSN'', DInt), (''Date_forest'', DDatetime),
               (''Start_Time_forest'', DDatetime), (''End_Time_forest'', DObject),
               (''Date_grassland'', DDatetime), (''Start_Time_grassland'', DDatetime),
               (''End_Time_grassland'', DObject)],
       rows = [[Num 1, Stamp 2021 6 1 (Tod 0 0 0 0), Stamp 2021 6 1 (Tod 6 15 0 250),
                Time (Tod 6 25 0 0), NA, NA, NA],
               [Num 2, NA, NA, NA, Stamp 2021 7 1 (Tod 0 0 0 0),
                Stamp 2021 7 1 (Tod 7 0 0 0), Time (Tod 7 10 0 0)]] \<rparr>"

definition filled_xl_eg :: table where
  "filled_xl_eg =
     \<lparr> cols = cols merged_xl_eg,
       rows = [[Num 1, Stamp 2021 6 1 (Tod 0 0 0 0), Stamp 2021 6 1 (Tod 6 15 0 250),
                Time (Tod 6 25 0 0), NA, NA, Str ''Unknown''],
               [Num 2, NA, NA, Str ''Unknown'', Stamp 2021 7 1 (Tod 0 0 0 0),
                Stamp 2021 7 1 (Tod 7 0 0 0), Time (Tod 7 10 0 0)]] \<rparr>"

definition normalized_xl_eg :: table where
  "normalized_xl_eg =
     \<lparr> cols = [(''AcceptedTSN'', DInt), (''Date_forest'', DDatetime),
               (''Start_Time_forest'', DObject), (''End_Time_forest'', DObject),
               (''Date_grassland'', DDatetime), (''Start_Time_grassland'', DObject),
               (''End_Time_grassland'', DObject)],
       rows = [[Num 1, Stamp 2021 6 1 (Tod 0 0 0 0), Time (Tod 6 15 0 250),
                Time (Tod 6 25 0 0), NA, NA, NA],
               [Num 2, NA, NA, NA, Stamp 2021 7 1 (Tod 0 0 0 0),
                Time (Tod 7 0 0 0), Time (Tod 7 10 0 0)]] \<rparr>"

definition renormalized_xl_eg :: table where
  "renormalized_xl_eg =
     \<lparr> cols = [(''AcceptedTSN'', DInt), (''Date_forest'', DDatetime),
               (''Start_Time_forest'', DObject), (''End_Time_forest'', DObject),
               (''Date_grassland'', DDatetime), (''Start_Time_grassland'', DObject),
               (''End_Time_grassland'', DObject)],
       rows = [[Num 1, Stamp 2021 6 1 (Tod 0 0 0 0), NA,
                Time (Tod 6 25 0 0), NA, NA, NA],
               [Num 2, NA, NA, NA, Stamp 2021 7 1 (Tod 0 0 0 0),
                Time (Tod 7 0 0 0), Time (Tod 7 10 0 0)]] \<rparr>"

text \<open>
  A merged frame whose designated columns hold what a date or time column should
  not: a number, a boolean, a time of day in a date column, a time of day with a
  fraction of a second, and strings that neither format matches; and its
  normalisation.
\<close>

definition odd_merged_eg :: table where
  "odd_merged_eg =
     \<lparr> cols = [(''AcceptedTSN'', DInt), (''Date_forest'', DObject),
               (''Start_Time_forest'', DObject), (''End_Time_forest'', DObject),
               (''Date_grassland'', DFloat), (''Start_Time_grassland'', DBool),
               (''End_Time_grassland'', DObject)],
       rows = [[Num 1, Time (Tod 6 15 0 0), Time (Tod 6 15 0 250), Str ''6.25'',
                Num 20210601, Bool True, Time (Tod 7 10 0 0)],
               [Num 2, Str ''01/06/2021'', Num 615, Str ''06:25:00'',
                NA, Bool False, NA]] \<rparr>"

definition odd_normalized_eg :: table where
  "odd_normalized_eg =
     \<lparr> cols = [(''AcceptedTSN'', DInt), (''Date_forest'', DDatetime),
               (''Start_Time_forest'', DObject), (''End_Time_forest'', DObject),
               (''Date_grassland'', DDatetime), (''Start_Time_grassland'', DObject),
               (''End_Time_grassland'', DObject)],
       rows = [[Num 1, NA, NA, NA, NA, NA, Time (Tod 7 10 0 0)],
               [Num 2, NA, NA, Time (Tod 6 25 0 0), NA, NA, NA]] \<rparr>"

text \<open>
  A merged frame that has the six designated columns and the label \<open>Observer\<close>
  twice.
\<close>

definition repeated_label_eg :: table where
  "repeated_label_eg =
     \<lparr> cols = [(''AcceptedTSN'', DInt), (''Date_forest'', DObject),
               (''Start_Time_forest'', DObject), (''End_Time_forest'', DObject),
               (''Date_grassland'', DObject), (''Start_Time_grassland'', DObject),
               (''End_Time_grassland'', DObject), (''Observer'', DObject),
               (''Observer'', DObject)],
       rows = [[Num 1, Str ''2021-06-01'', Str ''06:15:00'', Str ''06:25:00'',
                Str ''2021-06-01'', Str ''07:00:00'', Str ''07:10:00'',
                Str ''Ann'', Str ''Ben'']] \<rparr>"




text \<open>A directory that holds the forest workbook, in one sheet, and no grassland workbook.\<close>

definition files_eg :: "string \<Rightarrow> workbook option" where
  "files_eg path =
     (if path = ''forest.xlsx'' then Some (Workbook [(''Sheet1'', forest_eg)]) else None)"

text \<open>
  Two plain files for \<open>birds.py\<close>: three forest observations, two grassland
  observations; and a stand-in for the format inference that parses nothing.
\<close>

definition forest_csv_eg :: frame where
  "forest_csv_eg =
     (range_index 3,
      \<lparr> cols = [(''AcceptedTSN'', DInt), (''Common_Name'', DObject)],
        rows = [[Num 1, Str ''Wood Thrush''], [Num 2, Str ''Ovenbird''], [Num 3, Str ''Veery'']] \<rparr>)"

definition grassland_csv_eg :: frame where
  "grassland_csv_eg =
     (range_index 2,
      \<lparr> cols = [(''AcceptedTSN'', DInt), (''Common_Name'', DObject)],
        rows = [[Num 3, Str ''Bobolink''], [Num 1, Str ''Dickcissel'']] \<rparr>)"

definition csv_files_eg :: "string \<Rightarrow> csv option" where
  "csv_files_eg path =
     (if path = ''forest.csv'' then Some (Csv forest_csv_eg)
      else if path = ''grassland.csv'' then Some (Csv grassland_csv_eg) else None)"

definition infer_nothing :: "cell list \<Rightarrow> cell \<Rightarrow> cell" where
  "infer_nothing col c = NA"

definition merged_csv_eg :: frame where
  "merged_csv_eg =
     (range_index 2,
      \<lparr> cols = [(''AcceptedTSN_forest'', DInt), (''Common_Name_forest'', DObject),
                (''AcceptedTSN_grassland'', DInt), (''Common_Name_grassland'', DObject)],
        rows = [[Num 1, Str ''Wood Thrush'', Num 3, Str ''Bobolink''],
                [Num 2, Str ''Ovenbird'', Num 1, Str ''Dickcissel'']] \<rparr>)"

text \<open>
  Two files of two observations each whose rows have one field more than the
  header, an observation code in front: \<open>read_csv\<close> takes the codes as row labels.
  The frame \<open>pd.concat\<close> makes of them has a row for each of the four codes.
\<close>

definition forest_coded_eg :: frame where
  "forest_coded_eg =
     ([Str ''F1'', Str ''F2''],
      \<lparr> cols = [(''AcceptedTSN'', DInt), (''Common_Name'', DObject)],
        rows = [[Num 1, Str ''Wood Thrush''], [Num 2, Str ''Ovenbird'']] \<rparr>)"

definition grassland_coded_eg :: frame where
  "grassland_coded_eg =
     ([Str ''G1'', Str ''G2''],
      \<lparr> cols = [(''AcceptedTSN'', DInt), (''Common_Name'', DObject)],
        rows = [[Num 3, Str ''Bobolink''], [Num 1, Str ''Dickcissel'']] \<rparr>)"

definition coded_files_eg :: "string \<Rightarrow> csv option" where
  "coded_files_eg path =
     (if path = ''forest.csv'' then Some (Csv forest_coded_eg)
      else if path = ''grassland.csv'' then Some (Csv grassland_coded_eg) else None)"

definition merged_coded_eg :: frame where
  "merged_coded_eg =
     ([Str ''F1'', Str ''F2'', Str ''G1'', Str ''G2''],
      \<lparr> cols = [(''AcceptedTSN_forest'', DFloat), (''Common_Name_forest'', DObject),
                (''AcceptedTSN_grassland'', DFloat), (''Common_Name_grassland'', DObject)],
        rows = [[Num 1, Str ''Wood Thrush'', NA, NA],
                [Num 2, Str ''Ovenbird'', NA, NA],
                [NA, NA, Num 3, Str ''Bobolink''],
                [NA, NA, Num 1, Str ''Dickcissel'']] \<rparr>)"

section \<open>The normaliser, cell by cell\<close>

lemma index_of_Some: "index_of x xs = Some i \<Longrightarrow> i < length xs \<and> xs ! i = x"
  by (induction xs arbitrary: i) (auto split: if_splits)

lemma index_of_None: "index_of x xs = None \<longleftrightarrow> x \<notin> set xs"
  by (induction xs) auto

lemma index_of_first: "index_of x xs = Some i \<Longrightarrow> p < i \<Longrightarrow> xs ! p \<noteq> x"
proof (induction xs arbitrary: i p)
  case Nil then show ?case by simp
next
  case (Cons y ys)
  show ?case
  proof (cases "x = y")
    case True with Cons.prems show ?thesis by simp
  next
    case False
    with Cons.prems obtain i' where i': "index_of x ys = Some i'" "i = Suc i'" by auto
    show ?thesis
    proof (cases p)
      case 0 with False show ?thesis by simp
    next
      case (Suc p')
      with Cons.prems i' have "ys ! p' \<noteq> x" using Cons.IH[of i' p'] by simp
      with Suc show ?thesis by simp
    qed
  qed
qed

lemma count_list_one_unique:
  "count_list xs x = 1 \<Longrightarrow> p < length xs \<Longrightarrow> q < length xs \<Longrightarrow> xs ! p = x \<Longrightarrow> xs ! q = x \<Longrightarrow> p = q"
proof (induction xs arbitrary: p q)
  case Nil then show ?case by simp
next
  case (Cons y ys)
  show ?case
  proof (cases "y = x")
    case True
    with Cons.prems have z: "count_list ys x = 0" by simp
    then have nin: "x \<notin> set ys" by (simp add: count_list_0_iff)
    have "p = 0"
    proof (cases p)
      case (Suc p') with Cons.prems nin show ?thesis by (auto dest: nth_mem)
    qed simp
    moreover have "q = 0"
    proof (cases q)
      case (Suc q') with Cons.prems nin show ?thesis by (auto dest: nth_mem)
    qed simp
    ultimately show ?thesis by simp
  next
    case False
    with Cons.prems have c: "count_list ys x = 1" by simp
    from False Cons.prems obtain p' q' where "p = Suc p'" "q = Suc q'"
      by (cases p; cases q) auto
    with Cons.prems c Cons.IH[of p' q'] show ?thesis by simp
  qed
qed

lemma cell_at_update: "cell_at (r[i := x]) p = (if p = i \<and> i < length r then x else cell_at r p)"
  by (auto simp: cell_at_def)

lemma assign_col_props:
  assumes "assign_col n f d t = Inr t'" and "rect t"
  shows "names t' = names t" and "rect t'" and "length (rows t') = length (rows t)"
    and "\<And>k p. k < length (rows t) \<Longrightarrow> p < length (cols t) \<Longrightarrow>
           cell_at (rows t' ! k) p =
             (if names t ! p = n then f (cell_at (rows t ! k) p) else cell_at (rows t ! k) p)"
    and "\<And>p. p < length (cols t) \<Longrightarrow>
           dtypes t' ! p = (if names t ! p = n then d else dtypes t ! p)"
    and "n \<in> set (names t)" and "count_list (names t) n = 1"
proof -
  from assms(1) obtain i where i: "index_of n (names t) = Some i"
    and c: "count_list (names t) n = 1"
    and t': "t' = \<lparr> cols = (cols t)[i := (n, d)], rows = map (\<lambda>r. r[i := f (cell_at r i)]) (rows t) \<rparr>"
    by (auto simp: assign_col_def split: option.splits if_splits)
  from index_of_Some[OF i] have il: "i < length (cols t)" and ni: "names t ! i = n"
    by (simp_all add: names_def)
  show "count_list (names t) n = 1" by (rule c)
  from il ni show "n \<in> set (names t)" by (metis length_map names_def nth_mem)
  show "names t' = names t"
    using il ni unfolding t' names_def
    by (simp add: map_update) (metis fst_conv list_update_id map_update nth_map)
  show "rect t'" using assms(2) unfolding t' rect_def by (simp add: list_all_iff)
  show "length (rows t') = length (rows t)" unfolding t' by simp
  show "cell_at (rows t' ! k) p =
          (if names t ! p = n then f (cell_at (rows t ! k) p) else cell_at (rows t ! k) p)"
    if k: "k < length (rows t)" and p: "p < length (cols t)" for k p
  proof -
    from assms(2) k have len: "length (rows t ! k) = length (cols t)"
      by (simp add: rect_def list_all_length)
    have eq: "names t ! p = n \<longleftrightarrow> p = i"
      using count_list_one_unique[OF c, of p i] p il ni by (auto simp: names_def)
    show ?thesis using k il len unfolding t' by (simp add: cell_at_update eq)
  qed
  show "dtypes t' ! p = (if names t ! p = n then d else dtypes t ! p)"
    if p: "p < length (cols t)" for p
  proof -
    have eq: "names t ! p = n \<longleftrightarrow> p = i"
      using count_list_one_unique[OF c, of p i] p il ni by (auto simp: names_def)
    show ?thesis using p il unfolding t' dtypes_def by (simp add: eq nth_list_update)
  qed
qed

lemma find_SomeD: "find P xs = Some x \<Longrightarrow> x \<in> set xs \<and> P x"
  by (induction xs) (auto split: if_splits)

lemma fillna_cols_Inr:
  "fillna_cols sel v t = Inr t' \<longleftrightarrow>
     (\<forall>c \<in> set (cols t). sel (snd c) \<longrightarrow> count_list (names t) (fst c) = 1)
     \<and> t' = t \<lparr> rows := map (\<lambda>r. map2 (\<lambda>d c. if sel d \<and> c = NA then v else c) (dtypes t) r)
                            (rows t) \<rparr>"
proof (cases "find (\<lambda>(n, d). sel d \<and> count_list (names t) n \<noteq> 1) (cols t)")
  case None
  then have "\<forall>c \<in> set (cols t). sel (snd c) \<longrightarrow> count_list (names t) (fst c) = 1"
    by (auto simp: find_None_iff)
  with None show ?thesis by (auto simp: fillna_cols_def)
next
  case (Some c)
  from find_SomeD[OF this]
  have "c \<in> set (cols t) \<and> sel (snd c) \<and> count_list (names t) (fst c) \<noteq> 1"
    by (auto split: prod.splits)
  with Some show ?thesis by (auto simp: fillna_cols_def split: prod.splits)
qed

lemma fillna_cols_props:
  assumes "fillna_cols sel v t = Inr t'" and "rect t"
  shows "cols t' = cols t" and "rect t'"
    and "length (rows t') = length (rows t)"
    and "\<And>k p. k < length (rows t) \<Longrightarrow> p < length (cols t) \<Longrightarrow>
           cell_at (rows t' ! k) p =
             (if sel (dtypes t ! p) \<and> cell_at (rows t ! k) p = NA then v
              else cell_at (rows t ! k) p)"
proof -
  from assms(1) have t': "t' = t \<lparr> rows := map (\<lambda>r. map2 (\<lambda>d c. if sel d \<and> c = NA then v else c)
                                              (dtypes t) r) (rows t) \<rparr>"
    by (simp add: fillna_cols_Inr)
  show "cols t' = cols t" by (simp add: t')
  show "rect t'" using assms(2)
    by (simp add: t' rect_def list_all_iff dtypes_def)
  show "length (rows t') = length (rows t)" by (simp add: t')
  show "cell_at (rows t' ! k) p =
             (if sel (dtypes t ! p) \<and> cell_at (rows t ! k) p = NA then v
              else cell_at (rows t ! k) p)"
    if k: "k < length (rows t)" and p: "p < length (cols t)" for k p
  proof -
    from assms(2) k have len: "length (rows t ! k) = length (cols t)"
      by (simp add: rect_def list_all_length)
    show ?thesis using k p len by (simp add: t' cell_at_def dtypes_def)
  qed
qed

lemma distinct_count_one: "distinct xs \<Longrightarrow> x \<in> set xs \<Longrightarrow> count_list xs x = 1"
  by (induction xs) auto

lemma fillna_cols_total:
  assumes "distinct (names t)"
  shows "\<exists>t'. fillna_cols sel v t = Inr t'"
proof -
  have "count_list (names t) (fst c) = 1" if "c \<in> set (cols t)" for c
  proof -
    from that have "fst c \<in> set (names t)" by (simp add: names_def)
    with assms show ?thesis by (rule distinct_count_one)
  qed
  then show ?thesis by (simp add: fillna_cols_Inr)
qed

lemma run_conversions_props:
  assumes "run_conversions cs t = Inr t'" and "rect t" and "distinct (map fst cs)"
  shows "names t' = names t \<and> rect t' \<and> length (rows t') = length (rows t)
       \<and> length (cols t') = length (cols t)
       \<and> (\<forall>k p. k < length (rows t) \<longrightarrow> p < length (cols t) \<longrightarrow>
             cell_at (rows t' ! k) p = conv_of cs (names t ! p) (cell_at (rows t ! k) p))
       \<and> (\<forall>p. p < length (cols t) \<longrightarrow> dtypes t' ! p = dtype_of cs (names t ! p) (dtypes t ! p))
       \<and> (\<forall>n \<in> fst ` set cs. count_list (names t) n = 1)"
  using assms
proof (induction cs arbitrary: t)
  case Nil
  then show ?case by (simp add: conv_of_def dtype_of_def)
next
  case (Cons c cs)
  obtain n f d where c: "c = (n, f, d)" by (cases c) auto
  from Cons.prems(1) c obtain t1 where a: "assign_col n f d t = Inr t1"
    and r: "run_conversions cs t1 = Inr t'"
    by (auto split: sum.splits)
  note A = assign_col_props[OF a Cons.prems(2)]
  from Cons.prems(3) c have dist: "distinct (map fst cs)" and nin: "n \<notin> fst ` set cs" by auto
  from nin have mo: "map_of cs n = None" by (simp add: map_of_eq_None_iff)
  have lc: "length (cols t1) = length (cols t)"
    using A(1) by (metis length_map names_def)
  note IH = Cons.IH[OF r A(2) dist]
  have cells: "cell_at (rows t' ! k) p = conv_of (c # cs) (names t ! p) (cell_at (rows t ! k) p)"
    if k: "k < length (rows t)" and p: "p < length (cols t)" for k p
  proof -
    have "cell_at (rows t' ! k) p = conv_of cs (names t ! p) (cell_at (rows t1 ! k) p)"
      using IH k p A(1) A(3) lc by simp
    also have "cell_at (rows t1 ! k) p =
        (if names t ! p = n then f (cell_at (rows t ! k) p) else cell_at (rows t ! k) p)"
      using A(4)[OF k p] .
    finally show ?thesis using mo by (simp add: conv_of_def c)
  qed
  have dts: "dtypes t' ! p = dtype_of (c # cs) (names t ! p) (dtypes t ! p)"
    if p: "p < length (cols t)" for p
  proof -
    have "dtypes t' ! p = dtype_of cs (names t ! p) (dtypes t1 ! p)"
      using IH p A(1) lc by simp
    also have "dtypes t1 ! p = (if names t ! p = n then d else dtypes t ! p)"
      using A(5)[OF p] .
    finally show ?thesis using mo by (simp add: dtype_of_def c)
  qed
  have cnt: "\<forall>m \<in> fst ` set (c # cs). count_list (names t) m = 1"
    using IH A(1) A(7) c by auto
  from IH A(1) A(3) lc cells dts cnt show ?case by simp
qed

lemma fill_missing_props:
  assumes "fill_missing t = Inr t'" and "rect t"
  shows "cols t' = cols t" and "rect t'"
    and "length (rows t') = length (rows t)"
    and "\<And>k p. k < length (rows t) \<Longrightarrow> p < length (cols t) \<Longrightarrow>
           cell_at (rows t' ! k) p = fill_cell (dtypes t ! p) (cell_at (rows t ! k) p)"
proof -
  from assms(1) obtain u where u: "fillna_cols is_number (Num 0) t = Inr u"
    and v: "fillna_cols is_object (Str ''Unknown'') u = Inr t'"
    by (auto simp: fill_missing_def split: sum.splits)
  note U = fillna_cols_props[OF u assms(2)]
  note V = fillna_cols_props[OF v U(2)]
  show "cols t' = cols t" using U(1) V(1) by simp
  show "rect t'" by (rule V(2))
  show "length (rows t') = length (rows t)" using U(3) V(3) by simp
  show "cell_at (rows t' ! k) p = fill_cell (dtypes t ! p) (cell_at (rows t ! k) p)"
    if k: "k < length (rows t)" and p: "p < length (cols t)" for k p
  proof -
    have du: "dtypes u = dtypes t" using U(1) by (simp add: dtypes_def)
    have "cell_at (rows t' ! k) p =
            (if is_object (dtypes t ! p) \<and> cell_at (rows u ! k) p = NA then Str ''Unknown''
             else cell_at (rows u ! k) p)"
      using V(4)[of k p] k p U(1) U(3) du by simp
    also have "cell_at (rows u ! k) p =
            (if is_number (dtypes t ! p) \<and> cell_at (rows t ! k) p = NA then Num 0
             else cell_at (rows t ! k) p)"
      using U(4)[OF k p] .
    finally show ?thesis by (auto simp: fill_cell_def is_number_def is_object_def)
  qed
qed

lemma fill_missing_total:
  assumes "distinct (names t)"
  shows "\<exists>t'. fill_missing t = Inr t'"
proof -
  from fillna_cols_total[OF assms] obtain u where u: "fillna_cols is_number (Num 0) t = Inr u"
    by blast
  then have "names u = names t" by (simp add: fillna_cols_Inr names_def)
  with assms have "distinct (names u)" by simp
  from fillna_cols_total[OF this] obtain t' where "fillna_cols is_object (Str ''Unknown'') u = Inr t'"
    by blast
  with u show ?thesis by (simp add: fill_missing_def)
qed

text \<open>
  The fill raises exactly when a numeric or object column carries a label that
  the frame has more than once.
\<close>

lemma fill_missing_Inr_iff:
  "(\<exists>t'. fill_missing t = Inr t') \<longleftrightarrow>
     (\<forall>c \<in> set (cols t). is_number (snd c) \<or> is_object (snd c) \<longrightarrow> count_list (names t) (fst c) = 1)"
proof
  assume "\<exists>t'. fill_missing t = Inr t'"
  then obtain t' u where u: "fillna_cols is_number (Num 0) t = Inr u"
    and v: "fillna_cols is_object (Str ''Unknown'') u = Inr t'"
    by (auto simp: fill_missing_def split: sum.splits)
  from u have a: "\<forall>c \<in> set (cols t). is_number (snd c) \<longrightarrow> count_list (names t) (fst c) = 1"
    and cu: "cols u = cols t"
    by (simp_all add: fillna_cols_Inr)
  from cu have nu: "names u = names t" by (simp add: names_def)
  from v have "\<forall>c \<in> set (cols u). is_object (snd c) \<longrightarrow> count_list (names u) (fst c) = 1"
    by (simp add: fillna_cols_Inr)
  then have b: "\<forall>c \<in> set (cols t). is_object (snd c) \<longrightarrow> count_list (names t) (fst c) = 1"
    by (simp only: cu nu)
  from a b
  show "\<forall>c \<in> set (cols t). is_number (snd c) \<or> is_object (snd c) \<longrightarrow> count_list (names t) (fst c) = 1"
    by blast
next
  assume h: "\<forall>c \<in> set (cols t). is_number (snd c) \<or> is_object (snd c)
               \<longrightarrow> count_list (names t) (fst c) = 1"
  then have "\<forall>c \<in> set (cols t). is_number (snd c) \<longrightarrow> count_list (names t) (fst c) = 1" by blast
  then obtain u where u: "fillna_cols is_number (Num 0) t = Inr u"
    by (simp add: fillna_cols_Inr)
  then have cu: "cols u = cols t" by (simp add: fillna_cols_Inr)
  then have nu: "names u = names t" by (simp add: names_def)
  from h have "\<forall>c \<in> set (cols u). is_object (snd c) \<longrightarrow> count_list (names u) (fst c) = 1"
    unfolding cu nu by blast
  then obtain t' where "fillna_cols is_object (Str ''Unknown'') u = Inr t'"
    by (simp add: fillna_cols_Inr)
  with u show "\<exists>t'. fill_missing t = Inr t'" by (simp add: fill_missing_def)
qed

lemma normalize_table_InrD:
  assumes "normalize_table sp m = Inr t"
  obtains fm where "fill_missing m = Inr fm" and "run_conversions (conversions sp) fm = Inr t"
  using assms by (auto simp: normalize_table_def convert_types_def split: sum.splits)

lemma normalize_props:
  assumes "normalize_table sp m = Inr t" and "rect m"
  shows "names t = names m" and "rect t" and "length (rows t) = length (rows m)"
    and "length (cols t) = length (cols m)"
    and "\<And>k p. k < length (rows m) \<Longrightarrow> p < length (cols m) \<Longrightarrow>
           cell_at (rows t ! k) p =
             conv_of (conversions sp) (names m ! p)
               (fill_cell (dtypes m ! p) (cell_at (rows m ! k) p))"
    and "\<And>p. p < length (cols m) \<Longrightarrow>
           dtypes t ! p = dtype_of (conversions sp) (names m ! p) (dtypes m ! p)"
    and "\<And>n. n \<in> fst ` set (conversions sp) \<Longrightarrow> count_list (names m) n = 1"
proof -
  from assms(1) obtain fm where fm: "fill_missing m = Inr fm"
    and r: "run_conversions (conversions sp) fm = Inr t"
    by (rule normalize_table_InrD)
  note F = fill_missing_props[OF fm assms(2)]
  have d: "distinct (map fst (conversions sp))" by (simp add: conversions_def)
  note R = run_conversions_props[OF r F(2) d]
  have nm: "names fm = names m" and dm: "dtypes fm = dtypes m"
    using F(1) by (simp_all add: names_def dtypes_def)
  show "names t = names m" using R nm by simp
  show "rect t" using R by simp
  show "length (rows t) = length (rows m)" using R F(3) by simp
  show "length (cols t) = length (cols m)" using R F(1) by simp
  show "cell_at (rows t ! k) p =
             conv_of (conversions sp) (names m ! p)
               (fill_cell (dtypes m ! p) (cell_at (rows m ! k) p))"
    if "k < length (rows m)" and "p < length (cols m)" for k p
    using R that F(1) F(3) F(4)[OF that] nm by simp
  show "dtypes t ! p = dtype_of (conversions sp) (names m ! p) (dtypes m ! p)"
    if "p < length (cols m)" for p
    using R that F(1) nm dm by simp
  show "count_list (names m) n = 1" if "n \<in> fst ` set (conversions sp)" for n
    using R that nm by force
qed

lemma conv_of_date: "n \<in> set date_columns \<Longrightarrow> conv_of (conversions sp) n = to_date sp"
  by (auto simp: date_columns_def conv_of_def conversions_def)

lemma conv_of_time: "n \<in> set time_columns \<Longrightarrow> conv_of (conversions sp) n = to_time sp"
  by (auto simp: time_columns_def conv_of_def conversions_def)

lemma conv_of_other:
  "n \<notin> set (date_columns @ time_columns) \<Longrightarrow> conv_of (conversions sp) n c = c"
  by (simp add: date_columns_def time_columns_def conv_of_def conversions_def)

lemma dtype_of_other:
  "n \<notin> set (date_columns @ time_columns) \<Longrightarrow> dtype_of (conversions sp) n d = d"
  by (simp add: date_columns_def time_columns_def dtype_of_def conversions_def)

lemma fst_conversions: "fst ` set (conversions sp) = set (date_columns @ time_columns)"
  by (auto simp: date_columns_def time_columns_def conversions_def)

lemma to_date_cases: "to_date sp c = NA \<or> (\<exists>y m d t. to_date sp c = Stamp y m d t)"
proof (cases c)
  case (Time t)
  then show ?thesis by (cases t) (simp add: to_date_def)
qed (auto simp: to_date_def split: option.splits)

lemma to_time_cases: "to_time sp c = NA \<or> (\<exists>t. to_time sp c = Time t)"
proof (cases c)
  case (Time t)
  then show ?thesis by (cases t) (simp add: to_time_def)
qed (auto simp: to_time_def split: option.splits)

lemma to_date_fill_NA: "to_date sp (fill_cell d NA) = NA"
  by (simp add: fill_cell_def to_date_def)

lemma to_time_fill_NA: "to_time sp (fill_cell d NA) = NA"
  by (simp add: fill_cell_def to_time_def)

lemma fill_cell_not_NA: "c \<noteq> NA \<Longrightarrow> fill_cell d c = c"
  by (simp add: fill_cell_def)

lemma cell_of_normalize:
  assumes "normalize_table sp m = Inr t" and "rect m" and "k < length (rows m)"
    and "n \<in> set (names m)"
  shows "\<exists>d. cell_of t k n = conv_of (conversions sp) n (fill_cell d (cell_of m k n))"
proof -
  from assms(4) obtain i where i: "index_of n (names m) = Some i"
    by (cases "index_of n (names m)") (auto simp: index_of_None)
  from index_of_Some[OF i] have il: "i < length (cols m)" and ni: "names m ! i = n"
    by (simp_all add: names_def)
  note N = normalize_props[OF assms(1,2)]
  have "cell_of t k n = cell_at (rows t ! k) i" using i N(1) by (simp add: cell_of_def)
  also have "\<dots> = conv_of (conversions sp) n (fill_cell (dtypes m ! i) (cell_at (rows m ! k) i))"
    using N(5)[OF assms(3) il] ni by simp
  also have "cell_at (rows m ! k) i = cell_of m k n" using i by (simp add: cell_of_def)
  finally show ?thesis by blast
qed

text \<open>
  What normalisation leaves in a cell of a designated date column and of a
  designated time column, by what the merged frame holds there.
\<close>

lemma date_cell_normalized:
  assumes "normalize_table sp m = Inr t" and "rect m" and "k < length (rows m)"
    and "n \<in> set date_columns"
  shows "cell_of m k n = NA \<Longrightarrow> cell_of t k n = NA"
    and "cell_of m k n = Str s \<Longrightarrow> s = ''Unknown'' \<or> sp DateFormat s = None \<Longrightarrow> cell_of t k n = NA"
    and "cell_of m k n = Str s \<Longrightarrow> s \<noteq> ''Unknown'' \<Longrightarrow> sp DateFormat s = Some (y, mo, d, td)
           \<Longrightarrow> cell_of t k n = Stamp y mo d td"
    and "cell_of m k n = Num a \<Longrightarrow> cell_of t k n = NA"
    and "cell_of m k n = Bool b \<Longrightarrow> cell_of t k n = NA"
    and "cell_of m k n = Time td \<Longrightarrow> cell_of t k n = NA"
    and "cell_of m k n = Stamp y mo d td \<Longrightarrow> cell_of t k n = Stamp y mo d td"
    and "cell_of t k n \<noteq> Num 0" and "cell_of t k n \<noteq> Str ''Unknown''"
proof -
  have "n \<in> fst ` set (conversions sp)" using assms(4) by (simp add: fst_conversions)
  then have "count_list (names m) n = 1" by (rule normalize_props(7)[OF assms(1,2)])
  then have nin: "n \<in> set (names m)" by (metis count_list_0_iff zero_neq_one)
  from cell_of_normalize[OF assms(1,2,3) nin] obtain d0
    where "cell_of t k n = conv_of (conversions sp) n (fill_cell d0 (cell_of m k n))" ..
  then have c: "cell_of t k n = to_date sp (fill_cell d0 (cell_of m k n))"
    by (simp add: conv_of_date[OF assms(4)])
  show "cell_of m k n = NA \<Longrightarrow> cell_of t k n = NA" by (simp add: c to_date_fill_NA)
  show "cell_of m k n = Str s \<Longrightarrow> s = ''Unknown'' \<or> sp DateFormat s = None \<Longrightarrow> cell_of t k n = NA"
    by (auto simp: c fill_cell_not_NA to_date_def)
  show "cell_of m k n = Str s \<Longrightarrow> s \<noteq> ''Unknown'' \<Longrightarrow> sp DateFormat s = Some (y, mo, d, td)
           \<Longrightarrow> cell_of t k n = Stamp y mo d td"
    by (simp add: c fill_cell_not_NA to_date_def)
  show "cell_of m k n = Num a \<Longrightarrow> cell_of t k n = NA" by (simp add: c fill_cell_not_NA to_date_def)
  show "cell_of m k n = Bool b \<Longrightarrow> cell_of t k n = NA" by (simp add: c fill_cell_not_NA to_date_def)
  show "cell_of m k n = Time td \<Longrightarrow> cell_of t k n = NA"
    by (cases td) (simp add: c fill_cell_not_NA to_date_def)
  show "cell_of m k n = Stamp y mo d td \<Longrightarrow> cell_of t k n = Stamp y mo d td"
    by (simp add: c fill_cell_not_NA to_date_def)
  show "cell_of t k n \<noteq> Num 0" "cell_of t k n \<noteq> Str ''Unknown''"
    using to_date_cases[of sp "fill_cell d0 (cell_of m k n)"] c by auto
qed

lemma time_cell_normalized:
  assumes "normalize_table sp m = Inr t" and "rect m" and "k < length (rows m)"
    and "n \<in> set time_columns"
  shows "cell_of m k n = NA \<Longrightarrow> cell_of t k n = NA"
    and "cell_of m k n = Str s \<Longrightarrow> s = ''Unknown'' \<or> sp TimeFormat s = None \<Longrightarrow> cell_of t k n = NA"
    and "cell_of m k n = Str s \<Longrightarrow> s \<noteq> ''Unknown'' \<Longrightarrow> sp TimeFormat s = Some (y, mo, d, td)
           \<Longrightarrow> cell_of t k n = Time td"
    and "cell_of m k n = Num a \<Longrightarrow> cell_of t k n = NA"
    and "cell_of m k n = Bool b \<Longrightarrow> cell_of t k n = NA"
    and "cell_of m k n = Time (Tod h mi se us) \<Longrightarrow>
           cell_of t k n = (if us = 0 then Time (Tod h mi se us) else NA)"
    and "cell_of m k n = Stamp y mo d td \<Longrightarrow> cell_of t k n = Time td"
    and "cell_of t k n \<noteq> Num 0" and "cell_of t k n \<noteq> Str ''Unknown''"
proof -
  have "n \<in> fst ` set (conversions sp)" using assms(4) by (simp add: fst_conversions)
  then have "count_list (names m) n = 1" by (rule normalize_props(7)[OF assms(1,2)])
  then have nin: "n \<in> set (names m)" by (metis count_list_0_iff zero_neq_one)
  from cell_of_normalize[OF assms(1,2,3) nin] obtain d0
    where "cell_of t k n = conv_of (conversions sp) n (fill_cell d0 (cell_of m k n))" ..
  then have c: "cell_of t k n = to_time sp (fill_cell d0 (cell_of m k n))"
    by (simp add: conv_of_time[OF assms(4)])
  show "cell_of m k n = NA \<Longrightarrow> cell_of t k n = NA" by (simp add: c to_time_fill_NA)
  show "cell_of m k n = Str s \<Longrightarrow> s = ''Unknown'' \<or> sp TimeFormat s = None \<Longrightarrow> cell_of t k n = NA"
    by (auto simp: c fill_cell_not_NA to_time_def)
  show "cell_of m k n = Str s \<Longrightarrow> s \<noteq> ''Unknown'' \<Longrightarrow> sp TimeFormat s = Some (y, mo, d, td)
           \<Longrightarrow> cell_of t k n = Time td"
    by (simp add: c fill_cell_not_NA to_time_def)
  show "cell_of m k n = Num a \<Longrightarrow> cell_of t k n = NA" by (simp add: c fill_cell_not_NA to_time_def)
  show "cell_of m k n = Bool b \<Longrightarrow> cell_of t k n = NA" by (simp add: c fill_cell_not_NA to_time_def)
  show "cell_of m k n = Time (Tod h mi se us) \<Longrightarrow>
           cell_of t k n = (if us = 0 then Time (Tod h mi se us) else NA)"
    by (simp add: c fill_cell_not_NA to_time_def)
  show "cell_of m k n = Stamp y mo d td \<Longrightarrow> cell_of t k n = Time td"
    by (simp add: c fill_cell_not_NA to_time_def)
  show "cell_of t k n \<noteq> Num 0" "cell_of t k n \<noteq> Str ''Unknown''"
    using to_time_cases[of sp "fill_cell d0 (cell_of m k n)"] c by auto
qed

lemma date_not_time: "n \<in> set date_columns \<Longrightarrow> n \<notin> set time_columns"
  by (auto simp: date_columns_def time_columns_def)

lemma format_of_date: "n \<in> set date_columns \<Longrightarrow> format_of n = DateFormat"
  by (simp add: format_of_def)

lemma format_of_time: "n \<in> set time_columns \<Longrightarrow> format_of n = TimeFormat"
  by (auto simp: format_of_def date_columns_def time_columns_def)

text \<open>
  Claim C3. In a merged frame that normalises, take any row and any of the six
  designated date and time columns. A cell that was missing ends as the missing
  marker, although the fill step had put a sentinel there in between. A string
  that the column's format does not parse (the string \<open>"Unknown"\<close> among them), a
  number and a boolean end as the missing marker; so does a time of day in a date
  column, and in a time column a time of day with a fraction of a second, while
  one with whole seconds is kept. A string that the format parses ends as the
  timestamp parsed, in a time column as its time of day, and likewise a timestamp.
  In no case does the cell end as \<open>0\<close> or as \<open>"Unknown"\<close>.
\<close>

theorem unparsed_date_time_stays_missing:
  assumes "normalize_table sp m = Inr t" and "rect m" and "k < length (rows m)"
    and "n \<in> set (date_columns @ time_columns)"
  shows "(cell_of m k n = NA \<longrightarrow> cell_of t k n = NA)
       \<and> (\<forall>s. cell_of m k n = Str s \<and> (s = ''Unknown'' \<or> sp (format_of n) s = None)
              \<longrightarrow> cell_of t k n = NA)
       \<and> (\<forall>a. cell_of m k n = Num a \<longrightarrow> cell_of t k n = NA)
       \<and> (\<forall>b. cell_of m k n = Bool b \<longrightarrow> cell_of t k n = NA)
       \<and> (\<forall>h mi se us. cell_of m k n = Time (Tod h mi se us) \<longrightarrow>
            cell_of t k n =
              (if n \<in> set time_columns \<and> us = 0 then Time (Tod h mi se us) else NA))
       \<and> (\<forall>s y mo d td.
            cell_of m k n = Str s \<and> s \<noteq> ''Unknown'' \<and> sp (format_of n) s = Some (y, mo, d, td)
              \<longrightarrow> cell_of t k n = (if n \<in> set date_columns then Stamp y mo d td else Time td))
       \<and> (\<forall>y mo d td. cell_of m k n = Stamp y mo d td
              \<longrightarrow> cell_of t k n = (if n \<in> set date_columns then Stamp y mo d td else Time td))
       \<and> cell_of t k n \<noteq> Num 0 \<and> cell_of t k n \<noteq> Str ''Unknown''"
proof -
  from assms(4) consider "n \<in> set date_columns" | "n \<in> set time_columns" by auto
  then show ?thesis
  proof cases
    case 1
    note D = date_cell_normalized[OF assms(1,2,3) 1]
    have nt: "n \<notin> set time_columns" by (rule date_not_time[OF 1])
    have f: "format_of n = DateFormat" by (rule format_of_date[OF 1])
    have a: "cell_of m k n = NA \<longrightarrow> cell_of t k n = NA" using D(1) by blast
    have b: "\<forall>s. cell_of m k n = Str s \<and> (s = ''Unknown'' \<or> sp (format_of n) s = None)
              \<longrightarrow> cell_of t k n = NA"
      unfolding f using D(2) by blast
    have c: "\<forall>a. cell_of m k n = Num a \<longrightarrow> cell_of t k n = NA" using D(4) by blast
    have d: "\<forall>b. cell_of m k n = Bool b \<longrightarrow> cell_of t k n = NA" using D(5) by blast
    have e: "\<forall>h mi se us. cell_of m k n = Time (Tod h mi se us) \<longrightarrow>
            cell_of t k n =
              (if n \<in> set time_columns \<and> us = 0 then Time (Tod h mi se us) else NA)"
      using D(6) nt by simp
    have g: "\<forall>s y mo d td.
            cell_of m k n = Str s \<and> s \<noteq> ''Unknown'' \<and> sp (format_of n) s = Some (y, mo, d, td)
              \<longrightarrow> cell_of t k n = (if n \<in> set date_columns then Stamp y mo d td else Time td)"
      unfolding f using D(3) 1 by simp
    have h: "\<forall>y mo d td. cell_of m k n = Stamp y mo d td
              \<longrightarrow> cell_of t k n = (if n \<in> set date_columns then Stamp y mo d td else Time td)"
      using D(7) 1 by simp
    from a b c d e g h D(8) D(9) show ?thesis by (intro conjI)
  next
    case 2
    note D = time_cell_normalized[OF assms(1,2,3) 2]
    have nd: "n \<notin> set date_columns" using 2 date_not_time by blast
    have f: "format_of n = TimeFormat" by (rule format_of_time[OF 2])
    have a: "cell_of m k n = NA \<longrightarrow> cell_of t k n = NA" using D(1) by blast
    have b: "\<forall>s. cell_of m k n = Str s \<and> (s = ''Unknown'' \<or> sp (format_of n) s = None)
              \<longrightarrow> cell_of t k n = NA"
      unfolding f using D(2) by blast
    have c: "\<forall>a. cell_of m k n = Num a \<longrightarrow> cell_of t k n = NA" using D(4) by blast
    have d: "\<forall>b. cell_of m k n = Bool b \<longrightarrow> cell_of t k n = NA" using D(5) by blast
    have e: "\<forall>h mi se us. cell_of m k n = Time (Tod h mi se us) \<longrightarrow>
            cell_of t k n =
              (if n \<in> set time_columns \<and> us = 0 then Time (Tod h mi se us) else NA)"
      using D(6) 2 by simp
    have g: "\<forall>s y mo d td.
            cell_of m k n = Str s \<and> s \<noteq> ''Unknown'' \<and> sp (format_of n) s = Some (y, mo, d, td)
              \<longrightarrow> cell_of t k n = (if n \<in> set date_columns then Stamp y mo d td else Time td)"
      unfolding f using D(3) nd by simp
    have h: "\<forall>y mo d td. cell_of m k n = Stamp y mo d td
              \<longrightarrow> cell_of t k n = (if n \<in> set date_columns then Stamp y mo d td else Time td)"
      using D(7) nd by simp
    from a b c d e g h D(8) D(9) show ?thesis by (intro conjI)
  qed
qed

theorem unparsed_date_time_stays_missing_witness:
  "normalize_table strptime_eg merged_eg = Inr normalized_eg \<and> rect merged_eg
   \<and> 1 < length (rows merged_eg)
   \<and> ''Date_grassland'' \<in> set (date_columns @ time_columns)
   \<and> cell_of merged_eg 1 ''Date_grassland'' = Str ''not-a-date''
   \<and> strptime_eg (format_of ''Date_grassland'') ''not-a-date'' = None
   \<and> cell_of normalized_eg 1 ''Date_grassland'' = NA
   \<and> normalize_table strptime_eg odd_merged_eg = Inr odd_normalized_eg \<and> rect odd_merged_eg
   \<and> 0 < length (rows odd_merged_eg)
   \<and> cell_of odd_merged_eg 0 ''Date_grassland'' = Num 20210601
   \<and> cell_of odd_normalized_eg 0 ''Date_grassland'' = NA
   \<and> ''Start_Time_grassland'' \<in> set (date_columns @ time_columns)
   \<and> cell_of odd_merged_eg 0 ''Start_Time_grassland'' = Bool True
   \<and> cell_of odd_normalized_eg 0 ''Start_Time_grassland'' = NA
   \<and> ''Date_forest'' \<in> set (date_columns @ time_columns)
   \<and> cell_of odd_merged_eg 0 ''Date_forest'' = Time (Tod 6 15 0 0)
   \<and> cell_of odd_normalized_eg 0 ''Date_forest'' = NA
   \<and> ''Start_Time_forest'' \<in> set (date_columns @ time_columns)
   \<and> cell_of odd_merged_eg 0 ''Start_Time_forest'' = Time (Tod 6 15 0 250)
   \<and> cell_of odd_normalized_eg 0 ''Start_Time_forest'' = NA"
proof -
  have h1: "normalize_table strptime_eg merged_eg = Inr normalized_eg" by code_simp
  have h2: "rect merged_eg" by code_simp
  have h3: "1 < length (rows merged_eg)" by code_simp
  have h4: "''Date_grassland'' \<in> set (date_columns @ time_columns)" by code_simp
  have h5: "cell_of merged_eg 1 ''Date_grassland'' = Str ''not-a-date''" by code_simp
  have h6: "strptime_eg (format_of ''Date_grassland'') ''not-a-date'' = None" by code_simp
  note T1 = unparsed_date_time_stays_missing[OF h1 h2 h3 h4]
  have r1: "cell_of normalized_eg 1 ''Date_grassland'' = NA"
    using T1[THEN conjunct2, THEN conjunct1, rule_format, of "''not-a-date''"] h5 h6
    by (simp only: simp_thms)
  have o1: "normalize_table strptime_eg odd_merged_eg = Inr odd_normalized_eg" by code_simp
  have o2: "rect odd_merged_eg" by code_simp
  have o3: "0 < length (rows odd_merged_eg)" by code_simp
  have c1: "cell_of odd_merged_eg 0 ''Date_grassland'' = Num 20210601" by code_simp
  note T2 = unparsed_date_time_stays_missing[OF o1 o2 o3 h4]
  have r2: "cell_of odd_normalized_eg 0 ''Date_grassland'' = NA"
    using T2[THEN conjunct2, THEN conjunct2, THEN conjunct1, rule_format, OF c1] .
  have h7: "''Start_Time_grassland'' \<in> set (date_columns @ time_columns)" by code_simp
  have c2: "cell_of odd_merged_eg 0 ''Start_Time_grassland'' = Bool True" by code_simp
  note T3 = unparsed_date_time_stays_missing[OF o1 o2 o3 h7]
  have r3: "cell_of odd_normalized_eg 0 ''Start_Time_grassland'' = NA"
    using T3[THEN conjunct2, THEN conjunct2, THEN conjunct2, THEN conjunct1, rule_format, OF c2] .
  have h8: "''Date_forest'' \<in> set (date_columns @ time_columns)" by code_simp
  have c3: "cell_of odd_merged_eg 0 ''Date_forest'' = Time (Tod 6 15 0 0)" by code_simp
  have n3: "''Date_forest'' \<notin> set time_columns" by code_simp
  note T4 = unparsed_date_time_stays_missing[OF o1 o2 o3 h8]
  have r4: "cell_of odd_normalized_eg 0 ''Date_forest'' = NA"
    using T4[THEN conjunct2, THEN conjunct2, THEN conjunct2, THEN conjunct2, THEN conjunct1,
             rule_format, OF c3] n3
    by (simp only: simp_thms if_False)
  have h9: "''Start_Time_forest'' \<in> set (date_columns @ time_columns)" by code_simp
  have c4: "cell_of odd_merged_eg 0 ''Start_Time_forest'' = Time (Tod 6 15 0 250)" by code_simp
  have n4: "(250::nat) \<noteq> 0" by simp
  note T5 = unparsed_date_time_stays_missing[OF o1 o2 o3 h9]
  have r5: "cell_of odd_normalized_eg 0 ''Start_Time_forest'' = NA"
    using T5[THEN conjunct2, THEN conjunct2, THEN conjunct2, THEN conjunct2, THEN conjunct1,
             rule_format, OF c4] n4
    by (simp only: simp_thms if_False)
  show ?thesis
    using h1 h2 h3 h4 h5 h6 r1 o1 o2 o3 c1 r2 h7 c2 r3 h8 c3 r4 h9 c4 r5 by (intro conjI)
qed

lemma assign_col_names: "assign_col n f d t = Inr t' \<Longrightarrow> names t' = names t"
proof -
  assume a: "assign_col n f d t = Inr t'"
  then obtain i where i: "index_of n (names t) = Some i"
    and t': "cols t' = (cols t)[i := (n, d)]"
    by (auto simp: assign_col_def split: option.splits if_splits)
  from index_of_Some[OF i] have "i < length (cols t)" "fst (cols t ! i) = n"
    by (auto simp: names_def)
  then show ?thesis unfolding names_def t'
    by (simp add: map_update) (metis list_update_id map_update nth_map)
qed

lemma assign_col_total:
  "distinct (names t) \<Longrightarrow> n \<in> set (names t) \<Longrightarrow> \<exists>t'. assign_col n f d t = Inr t'"
  by (auto simp: assign_col_def index_of_None distinct_count_one split: option.splits)

lemma assign_col_absent:
  "n \<notin> set (names t) \<Longrightarrow> assign_col n f d t = Inl (MissingExpectedColumn n)"
  by (simp add: assign_col_def index_of_None[THEN iffD2])

lemma run_conversions_total:
  "distinct (names t) \<Longrightarrow> fst ` set cs \<subseteq> set (names t) \<Longrightarrow> \<exists>t'. run_conversions cs t = Inr t'"
proof (induction cs arbitrary: t)
  case Nil then show ?case by simp
next
  case (Cons c cs)
  obtain n f d where c: "c = (n, f, d)" by (cases c) auto
  with Cons.prems obtain t1 where a: "assign_col n f d t = Inr t1"
    using assign_col_total[of t n f d] by auto
  from assign_col_names[OF a] Cons.prems have "distinct (names t1)" "fst ` set cs \<subseteq> set (names t1)"
    by auto
  from Cons.IH[OF this] a c show ?case by simp
qed

lemma run_conversions_absent:
  "distinct (names t) \<Longrightarrow> \<not> fst ` set cs \<subseteq> set (names t) \<Longrightarrow>
     \<exists>n \<in> fst ` set cs. n \<notin> set (names t) \<and> run_conversions cs t = Inl (MissingExpectedColumn n)"
proof (induction cs arbitrary: t)
  case Nil then show ?case by simp
next
  case (Cons c cs)
  obtain n f d where c: "c = (n, f, d)" by (cases c) auto
  show ?case
  proof (cases "n \<in> set (names t)")
    case False
    then show ?thesis using c by (simp add: assign_col_absent)
  next
    case True
    with Cons.prems obtain t1 where a: "assign_col n f d t = Inr t1"
      using assign_col_total[of t n f d] by auto
    from assign_col_names[OF a] Cons.prems True c
    have "distinct (names t1)" "\<not> fst ` set cs \<subseteq> set (names t1)" by auto
    from Cons.IH[OF this] a c assign_col_names[OF a] show ?thesis by auto
  qed
qed

lemma fill_missing_names: "fill_missing t = Inr t' \<Longrightarrow> names t' = names t"
  by (auto simp: fill_missing_def fillna_cols_Inr names_def split: sum.splits)

text \<open>
  Claim C8, as amended. On a rectangular merged frame with unique column labels
  the normaliser succeeds whenever the six designated columns are all there,
  whatever their cells hold, and a string that the column's format does not
  parse, a number and a boolean in one of them end as the missing marker; when one
  of the six is absent it fails with \<open>MissingExpectedColumn\<close> for an absent
  designated column.
\<close>

theorem normalize_fails_only_on_absent_column:
  assumes "distinct (names m)" and "rect m"
  shows "(set (date_columns @ time_columns) \<subseteq> set (names m) \<longrightarrow>
            (\<exists>t. normalize_table sp m = Inr t
               \<and> (\<forall>k n. k < length (rows m) \<and> n \<in> set (date_columns @ time_columns) \<longrightarrow>
                    (\<forall>s. cell_of m k n = Str s \<and> sp (format_of n) s = None
                           \<longrightarrow> cell_of t k n = NA)
                  \<and> (\<forall>a. cell_of m k n = Num a \<longrightarrow> cell_of t k n = NA)
                  \<and> (\<forall>b. cell_of m k n = Bool b \<longrightarrow> cell_of t k n = NA))))
       \<and> (\<not> set (date_columns @ time_columns) \<subseteq> set (names m) \<longrightarrow>
            (\<exists>n \<in> set (date_columns @ time_columns).
               n \<notin> set (names m) \<and> normalize_table sp m = Inl (MissingExpectedColumn n)))"
proof -
  from fill_missing_total[OF assms(1)] obtain fm where fm: "fill_missing m = Inr fm" by blast
  have nm: "names fm = names m" by (rule fill_missing_names[OF fm])
  have dfm: "distinct (names fm)" using assms(1) nm by simp
  have nt: "normalize_table sp m = run_conversions (conversions sp) fm"
    by (simp add: normalize_table_def convert_types_def fm)
  have a: "\<exists>t. normalize_table sp m = Inr t
               \<and> (\<forall>k n. k < length (rows m) \<and> n \<in> set (date_columns @ time_columns) \<longrightarrow>
                    (\<forall>s. cell_of m k n = Str s \<and> sp (format_of n) s = None
                           \<longrightarrow> cell_of t k n = NA)
                  \<and> (\<forall>a. cell_of m k n = Num a \<longrightarrow> cell_of t k n = NA)
                  \<and> (\<forall>b. cell_of m k n = Bool b \<longrightarrow> cell_of t k n = NA))"
    if sub: "set (date_columns @ time_columns) \<subseteq> set (names m)"
  proof -
    have "fst ` set (conversions sp) \<subseteq> set (names fm)"
      unfolding fst_conversions nm by (rule sub)
    from run_conversions_total[OF dfm this] obtain t
      where t: "normalize_table sp m = Inr t" unfolding nt by blast
    have "(\<forall>s. cell_of m k n = Str s \<and> sp (format_of n) s = None \<longrightarrow> cell_of t k n = NA)
        \<and> (\<forall>a. cell_of m k n = Num a \<longrightarrow> cell_of t k n = NA)
        \<and> (\<forall>b. cell_of m k n = Bool b \<longrightarrow> cell_of t k n = NA)"
      if k: "k < length (rows m)" and n: "n \<in> set (date_columns @ time_columns)" for k n
    proof -
      from n consider "n \<in> set date_columns" | "n \<in> set time_columns" by auto
      then show ?thesis
      proof cases
        case 1
        note D = date_cell_normalized[OF t assms(2) k 1]
        show ?thesis unfolding format_of_date[OF 1] using D(2) D(4) D(5) by blast
      next
        case 2
        note D = time_cell_normalized[OF t assms(2) k 2]
        show ?thesis unfolding format_of_time[OF 2] using D(2) D(4) D(5) by blast
      qed
    qed
    with t show ?thesis by blast
  qed
  have b: "\<exists>n \<in> set (date_columns @ time_columns).
               n \<notin> set (names m) \<and> normalize_table sp m = Inl (MissingExpectedColumn n)"
    if nsub: "\<not> set (date_columns @ time_columns) \<subseteq> set (names m)"
  proof -
    have "\<not> fst ` set (conversions sp) \<subseteq> set (names fm)"
      unfolding fst_conversions nm by (rule nsub)
    from run_conversions_absent[OF dfm this] show ?thesis
      unfolding nt fst_conversions nm .
  qed
  from a b show ?thesis by blast
qed

text \<open>
  The claim as stated fails on a merged frame that repeats a label: all six
  designated columns are there, and the fill raises \<open>ValueError\<close> for the repeated
  label \<open>Observer\<close>.
\<close>

theorem normalize_repeated_label_counterexample:
  "set (date_columns @ time_columns) \<subseteq> set (names repeated_label_eg)
   \<and> rect repeated_label_eg
   \<and> count_list (names repeated_label_eg) ''Observer'' = 2
   \<and> fill_missing repeated_label_eg = Inl (AmbiguousColumn ''Observer'')
   \<and> normalize_table strptime_eg repeated_label_eg = Inl (AmbiguousColumn ''Observer'')"
  by code_simp

theorem normalize_fails_only_on_absent_column_witness:
  "distinct (names merged_eg) \<and> rect merged_eg
   \<and> set (date_columns @ time_columns) \<subseteq> set (names merged_eg)
   \<and> normalize_table strptime_eg merged_eg = Inr normalized_eg
   \<and> 1 < length (rows merged_eg) \<and> ''Date_grassland'' \<in> set (date_columns @ time_columns)
   \<and> cell_of merged_eg 1 ''Date_grassland'' = Str ''not-a-date''
   \<and> strptime_eg (format_of ''Date_grassland'') ''not-a-date'' = None
   \<and> cell_of normalized_eg 1 ''Date_grassland'' = NA
   \<and> distinct (names forest_eg) \<and> rect forest_eg
   \<and> \<not> set (date_columns @ time_columns) \<subseteq> set (names forest_eg)
   \<and> (\<exists>n \<in> set (date_columns @ time_columns).
         n \<notin> set (names forest_eg)
         \<and> normalize_table strptime_eg forest_eg = Inl (MissingExpectedColumn n))"
proof -
  have h1: "distinct (names merged_eg)" by code_simp
  have h2: "rect merged_eg" by code_simp
  have h3: "set (date_columns @ time_columns) \<subseteq> set (names merged_eg)" by code_simp
  have n1: "normalize_table strptime_eg merged_eg = Inr normalized_eg" by code_simp
  have k1: "1 < length (rows merged_eg)" by code_simp
  have d1: "''Date_grassland'' \<in> set (date_columns @ time_columns)" by code_simp
  have c1: "cell_of merged_eg 1 ''Date_grassland'' = Str ''not-a-date''" by code_simp
  have p1: "strptime_eg (format_of ''Date_grassland'') ''not-a-date'' = None" by code_simp
  from normalize_fails_only_on_absent_column[OF h1 h2, of strptime_eg, THEN conjunct1, rule_format, OF h3]
  obtain t where t: "normalize_table strptime_eg merged_eg = Inr t"
    and cells: "\<forall>k n. k < length (rows merged_eg) \<and> n \<in> set (date_columns @ time_columns) \<longrightarrow>
                    (\<forall>s. cell_of merged_eg k n = Str s \<and> strptime_eg (format_of n) s = None
                           \<longrightarrow> cell_of t k n = NA)
                  \<and> (\<forall>a. cell_of merged_eg k n = Num a \<longrightarrow> cell_of t k n = NA)
                  \<and> (\<forall>b. cell_of merged_eg k n = Bool b \<longrightarrow> cell_of t k n = NA)"
    by blast
  from t n1 have te: "t = normalized_eg" by simp
  have "cell_of t 1 ''Date_grassland'' = NA"
    using cells[rule_format, OF conjI, OF k1 d1, THEN conjunct1, rule_format, OF conjI, OF c1 p1] .
  then have r1: "cell_of normalized_eg 1 ''Date_grassland'' = NA" by (simp only: te)
  have g1: "distinct (names forest_eg)" by code_simp
  have g2: "rect forest_eg" by code_simp
  have g3: "\<not> set (date_columns @ time_columns) \<subseteq> set (names forest_eg)" by code_simp
  have b: "\<exists>n \<in> set (date_columns @ time_columns).
         n \<notin> set (names forest_eg)
         \<and> normalize_table strptime_eg forest_eg = Inl (MissingExpectedColumn n)"
    using normalize_fails_only_on_absent_column[OF g1 g2, of strptime_eg, THEN conjunct2, rule_format, OF g3] .
  show ?thesis using h1 h2 h3 n1 k1 d1 c1 p1 r1 g1 g2 g3 b by (intro conjI)
qed

section \<open>The outer join\<close>

lemma length_drop_nth: "j < length xs \<Longrightarrow> length (drop_nth j xs) = length xs - 1"
  by (simp add: drop_nth_def)

lemma map_drop_nth: "map f (drop_nth j xs) = drop_nth j (map f xs)"
  by (simp add: drop_nth_def take_map drop_map)

lemma set_drop_nth_unique:
  assumes "index_of x xs = Some j" and "count_list xs x = 1"
  shows "set (drop_nth j xs) = set xs - {x}"
proof -
  from index_of_Some[OF assms(1)] have j: "j < length xs" and xj: "xs ! j = x" by simp_all
  have xs: "xs = take j xs @ x # drop (Suc j) xs"
    using j xj by (metis id_take_nth_drop)
  have "count_list (take j xs @ x # drop (Suc j) xs) x = 1" using assms(2) xs by simp
  then have "count_list (take j xs) x = 0 \<and> count_list (drop (Suc j) xs) x = 0" by simp
  then have nin: "x \<notin> set (take j xs) \<and> x \<notin> set (drop (Suc j) xs)"
    by (simp add: count_list_0_iff)
  have "set xs = set (take j xs) \<union> {x} \<union> set (drop (Suc j) xs)"
    by (subst xs) auto
  with nin show ?thesis by (auto simp: drop_nth_def)
qed

lemma merge_outer_InrD:
  assumes "merge_outer l r k sfx = Inr m"
  obtains i j where "index_of k (names l) = Some i" and "index_of k (names r) = Some j"
    and "count_list (names l) k = 1" and "count_list (names r) k = 1"
    and "names m = map (suffix_name (drop_nth j (names r)) (fst sfx)) (names l)
                 @ map (suffix_name (names l) (snd sfx)) (drop_nth j (names r))"
    and "length (cols m) = length (cols l) + length (cols r) - 1"
    and "\<exists>ps kl kr. i \<notin> set ps
           \<and> (\<forall>c. kl c = c \<or> kl c = join_key (snd (cols l ! i)) (snd (cols r ! j)) c)
           \<and> (\<forall>c. kr c = c \<or> kr c = join_key (snd (cols r ! j)) (snd (cols l ! i)) c)
           \<and> rows m = map (cast_at ps)
               (left_rows (join_key (snd (cols l ! i)) (snd (cols r ! j)))
                          (join_key (snd (cols r ! j)) (snd (cols l ! i))) kl
                          i j (length (cols r) - 1) (rows l) (rows r)
                @ right_only_rows kr i j (length (cols l))
                    (unmatched (join_key (snd (cols l ! i)) (snd (cols r ! j)))
                               (join_key (snd (cols r ! j)) (snd (cols l ! i)))
                               i j (rows l) (rows r)))"
proof -
  from assms obtain i j where i: "index_of k (names l) = Some i"
    and j: "index_of k (names r) = Some j"
    by (auto simp: merge_outer_def split: option.splits)
  from index_of_Some[OF i] have il: "i < length (cols l)" by (simp add: names_def)
  from index_of_Some[OF j] have jl: "j < length (cols r)" by (simp add: names_def)
  from assms i j have c: "count_list (names l) k = 1" "count_list (names r) k = 1"
    by (auto simp: merge_outer_def split: if_splits)
  define rcols where "rcols = drop_nth j (cols r)"
  define gl where "gl = join_key (snd (cols l ! i)) (snd (cols r ! j))"
  define gr where "gr = join_key (snd (cols r ! j)) (snd (cols l ! i))"
  define ronly where "ronly = unmatched gl gr i j (rows l) (rows r)"
  define r_na where "r_na = list_ex (\<lambda>lr. matches gr j (gl (cell_at lr i)) (rows r) = []) (rows l)"
  define kl where "kl = (\<lambda>c. if ronly \<noteq> [] then gl c else c)"
  define kr where "kr = (\<lambda>c. if rows l \<noteq> [] then gr c else c)"
  define ps where "ps = (if ronly \<noteq> [] then filter (\<lambda>p. p \<noteq> i) (int_positions (dtypes l)) else [])
       @ (if r_na then map (\<lambda>q. length (cols l) + q) (int_positions (map snd rcols)) else [])"
  define ldt where "ldt = (map (upcast (ronly \<noteq> [])) (dtypes l))
       [i := joined_key_dtype (snd (cols l ! i)) (snd (cols r ! j)) (ronly \<noteq> []) (rows l = [])]"
  define rdt where "rdt = map (upcast r_na) (map snd rcols)"
  have lr: "length rcols = length (cols r) - 1" using jl by (simp add: rcols_def length_drop_nth)
  have m: "m = \<lparr> cols =
        zip (map (suffix_name (map fst rcols) (fst sfx)) (names l)) ldt
        @ zip (map (suffix_name (names l) (snd sfx)) (map fst rcols)) rdt,
      rows = map (cast_at ps)
               (left_rows gl gr kl i j (length rcols) (rows l) (rows r)
                @ right_only_rows kr i j (length (cols l)) ronly) \<rparr>"
    using assms i j c
    unfolding merge_outer_def rcols_def gl_def gr_def ronly_def r_na_def kl_def kr_def ps_def
      ldt_def rdt_def
    by (simp add: Let_def split: if_splits)
  have fr: "map fst rcols = drop_nth j (names r)" by (simp add: rcols_def map_drop_nth names_def)
  have ll: "length ldt = length (cols l)" by (simp add: ldt_def dtypes_def)
  have lrd: "length rdt = length rcols" by (simp add: rdt_def)
  have "names m = map (suffix_name (map fst rcols) (fst sfx)) (names l)
                 @ map (suffix_name (names l) (snd sfx)) (map fst rcols)"
    unfolding m names_def[of "\<lparr>cols = _, rows = _\<rparr>"]
    using ll lrd by (simp add: names_def)
  then have n: "names m = map (suffix_name (drop_nth j (names r)) (fst sfx)) (names l)
                 @ map (suffix_name (names l) (snd sfx)) (drop_nth j (names r))"
    by (simp only: fr)
  have lc: "length (cols m) = length (cols l) + length (cols r) - 1"
    unfolding m using jl ll lrd by (simp add: lr names_def)
  have ips: "i \<notin> set ps" using il by (auto simp: ps_def)
  have kls: "\<forall>c. kl c = c \<or> kl c = gl c" by (simp add: kl_def)
  have krs: "\<forall>c. kr c = c \<or> kr c = gr c" by (simp add: kr_def)
  have rw: "rows m = map (cast_at ps)
               (left_rows gl gr kl i j (length (cols r) - 1) (rows l) (rows r)
                @ right_only_rows kr i j (length (cols l)) (unmatched gl gr i j (rows l) (rows r)))"
    unfolding m by (simp add: lr ronly_def)
  have ex: "\<exists>ps kl kr. i \<notin> set ps
           \<and> (\<forall>c. kl c = c \<or> kl c = join_key (snd (cols l ! i)) (snd (cols r ! j)) c)
           \<and> (\<forall>c. kr c = c \<or> kr c = join_key (snd (cols r ! j)) (snd (cols l ! i)) c)
           \<and> rows m = map (cast_at ps)
               (left_rows (join_key (snd (cols l ! i)) (snd (cols r ! j)))
                          (join_key (snd (cols r ! j)) (snd (cols l ! i))) kl
                          i j (length (cols r) - 1) (rows l) (rows r)
                @ right_only_rows kr i j (length (cols l))
                    (unmatched (join_key (snd (cols l ! i)) (snd (cols r ! j)))
                               (join_key (snd (cols r ! j)) (snd (cols l ! i)))
                               i j (rows l) (rows r)))"
    using ips kls krs rw unfolding gl_def gr_def by blast
  from that[OF i j c n lc ex] show thesis .
qed

lemma drop_nth_filter:
  assumes "index_of x xs = Some j" and "count_list xs x = 1"
  shows "drop_nth j xs = filter (\<lambda>n. n \<noteq> x) xs"
proof -
  from index_of_Some[OF assms(1)] have j: "j < length xs" and xj: "xs ! j = x" by simp_all
  have xs: "xs = take j xs @ x # drop (Suc j) xs"
    using j xj by (metis id_take_nth_drop)
  have "count_list (take j xs @ x # drop (Suc j) xs) x = 1" using assms(2) xs by simp
  then have "count_list (take j xs) x = 0 \<and> count_list (drop (Suc j) xs) x = 0" by simp
  then have nin: "x \<notin> set (take j xs)" "x \<notin> set (drop (Suc j) xs)"
    by (simp_all add: count_list_0_iff)
  have "filter (\<lambda>n. n \<noteq> x) (take j xs) = take j xs"
    and "filter (\<lambda>n. n \<noteq> x) (drop (Suc j) xs) = drop (Suc j) xs"
    using nin by (auto intro: filter_True)
  then have "filter (\<lambda>n. n \<noteq> x) (take j xs @ x # drop (Suc j) xs) = take j xs @ drop (Suc j) xs"
    by simp
  with xs show ?thesis by (simp add: drop_nth_def)
qed

lemma count_list_map_key:
  "(\<And>n. f n = x \<longleftrightarrow> n = x) \<Longrightarrow> count_list (map f xs) x = count_list xs x"
  by (induction xs) auto

lemma index_of_map_key:
  assumes "\<And>n. f n = x \<longleftrightarrow> n = x"
  shows "index_of x (map f xs) = index_of x xs"
proof -
  have "x = f n \<longleftrightarrow> x = n" for n using assms[of n] by auto
  then show ?thesis by (induction xs) simp_all
qed

lemma index_of_append: "x \<in> set xs \<Longrightarrow> index_of x (xs @ ys) = index_of x xs"
  by (induction xs) auto

lemma forest_suffix_not_key: "n @ ''_forest'' \<noteq> ''AcceptedTSN''"
proof
  assume "n @ ''_forest'' = ''AcceptedTSN''"
  then have "last (n @ ''_forest'') = last ''AcceptedTSN''" by simp
  then show False by simp
qed

lemma grassland_suffix_not_key: "n @ ''_grassland'' \<noteq> ''AcceptedTSN''"
proof
  assume "n @ ''_grassland'' = ''AcceptedTSN''"
  then have "last (n @ ''_grassland'') = last ''AcceptedTSN''" by simp
  then show False by simp
qed

lemma merge_habitats_names:
  assumes "merge_habitats l r = Inr m"
  shows "count_list (names m) ''AcceptedTSN'' = 1"
    and "index_of ''AcceptedTSN'' (names m) = index_of ''AcceptedTSN'' (names l)"
    and "names m =
           map (\<lambda>n. if n \<noteq> ''AcceptedTSN'' \<and> n \<in> set (names r) then n @ ''_forest'' else n)
             (names l)
           @ map (\<lambda>n. if n \<in> set (names l) then n @ ''_grassland'' else n)
               (filter (\<lambda>n. n \<noteq> ''AcceptedTSN'') (names r))"
proof -
  let ?k = "''AcceptedTSN''"
  let ?fl = "\<lambda>n. if n \<noteq> ?k \<and> n \<in> set (names r) then n @ ''_forest'' else n"
  let ?fr = "\<lambda>n. if n \<in> set (names l) then n @ ''_grassland'' else n"
  from assms have mo: "merge_outer l r ?k (''_forest'', ''_grassland'') = Inr m"
    by (simp add: merge_habitats_def)
  from mo obtain i j where i: "index_of ?k (names l) = Some i"
    and j: "index_of ?k (names r) = Some j"
    and cl: "count_list (names l) ?k = 1" and cr: "count_list (names r) ?k = 1"
    and n: "names m = map (suffix_name (drop_nth j (names r)) ''_forest'') (names l)
                   @ map (suffix_name (names l) ''_grassland'') (drop_nth j (names r))"
    by (rule merge_outer_InrD) simp
  have sd: "set (drop_nth j (names r)) = set (names r) - {?k}"
    by (rule set_drop_nth_unique[OF j cr])
  have fl: "suffix_name (drop_nth j (names r)) ''_forest'' = ?fl"
    by (rule ext) (auto simp: suffix_name_def sd)
  have fr: "suffix_name (names l) ''_grassland'' = ?fr"
    by (rule ext) (simp add: suffix_name_def)
  have nm: "names m = map ?fl (names l) @ map ?fr (filter (\<lambda>n. n \<noteq> ?k) (names r))"
  proof -
    from n have "names m = map ?fl (names l) @ map ?fr (drop_nth j (names r))"
      by (simp only: fl fr)
    then show ?thesis by (simp only: drop_nth_filter[OF j cr])
  qed
  have flk: "?fl n = ?k \<longleftrightarrow> n = ?k" for n
  proof (cases "n \<noteq> ?k \<and> n \<in> set (names r)")
    case True
    then show ?thesis using forest_suffix_not_key[of n] by simp
  next
    case False
    then show ?thesis by auto
  qed
  have cnt_l: "count_list (map ?fl (names l)) ?k = 1"
    using cl by (simp only: count_list_map_key[of ?fl ?k, OF flk])
  have frk: "?fr n \<noteq> ?k" if "n \<noteq> ?k" for n
  proof (cases "n \<in> set (names l)")
    case True
    have "n @ ''_grassland'' \<noteq> ?k" by (rule grassland_suffix_not_key)
    with True show ?thesis by (simp only: if_True simp_thms)
  next
    case False
    with that show ?thesis by (simp only: if_False simp_thms)
  qed
  have "?k \<notin> set (map ?fr (filter (\<lambda>n. n \<noteq> ?k) (names r)))"
  proof
    assume "?k \<in> set (map ?fr (filter (\<lambda>n. n \<noteq> ?k) (names r)))"
    then obtain n where nn: "n \<in> set (filter (\<lambda>n. n \<noteq> ?k) (names r))" and e: "?k = ?fr n"
      unfolding set_map by (rule imageE)
    from nn have "n \<noteq> ?k" by simp
    from frk[OF this] e[symmetric] show False by (rule notE)
  qed
  then have cnt_r: "count_list (map ?fr (filter (\<lambda>n. n \<noteq> ?k) (names r))) ?k = 0"
    by (rule count_notin)
  have c: "count_list (names m) ?k = 1"
    by (simp only: nm count_list_append cnt_l cnt_r add_0_right)
  have kin: "?k \<in> set (map ?fl (names l))"
  proof (rule ccontr)
    assume "?k \<notin> set (map ?fl (names l))"
    then have "count_list (map ?fl (names l)) ?k = 0" by (rule count_notin)
    with cnt_l show False by simp
  qed
  have "index_of ?k (names m) = index_of ?k (map ?fl (names l))"
    by (simp only: nm index_of_append[OF kin])
  also have "\<dots> = index_of ?k (names l)"
    by (rule index_of_map_key[of ?fl ?k, OF flk])
  finally have ix: "index_of ?k (names m) = index_of ?k (names l)" .
  show "count_list (names m) ?k = 1" by (rule c)
  show "index_of ?k (names m) = index_of ?k (names l)" by (rule ix)
  show "names m = map ?fl (names l) @ map ?fr (filter (\<lambda>n. n \<noteq> ?k) (names r))" by (rule nm)
qed

text \<open>
  Claim C7. In the frame the join gives, the key label \<open>AcceptedTSN\<close> occurs exactly
  once, at the place it has in the forest frame and under its own name. The labels
  are those of the forest frame in order, a label other than the key that the
  grassland frame also has with \<open>_forest\<close> appended, followed by those of the
  grassland frame without the key, a label that the forest frame also has with
  \<open>_grassland\<close> appended; every other label is unchanged.
\<close>

theorem key_never_suffixed_others_by_origin:
  assumes "merge_habitats l r = Inr m"
  shows "count_list (names m) ''AcceptedTSN'' = 1
       \<and> index_of ''AcceptedTSN'' (names m) = index_of ''AcceptedTSN'' (names l)
       \<and> names m =
           map (\<lambda>n. if n \<noteq> ''AcceptedTSN'' \<and> n \<in> set (names r) then n @ ''_forest'' else n)
             (names l)
           @ map (\<lambda>n. if n \<in> set (names l) then n @ ''_grassland'' else n)
               (filter (\<lambda>n. n \<noteq> ''AcceptedTSN'') (names r))"
  using merge_habitats_names[OF assms] by (intro conjI)

theorem key_never_suffixed_others_by_origin_witness:
  "merge_habitats forest_eg grassland_eg = Inr merged_eg
   \<and> count_list (names merged_eg) ''AcceptedTSN'' = 1
   \<and> index_of ''AcceptedTSN'' (names merged_eg) = index_of ''AcceptedTSN'' (names forest_eg)
   \<and> names merged_eg =
       map (\<lambda>n. if n \<noteq> ''AcceptedTSN'' \<and> n \<in> set (names grassland_eg) then n @ ''_forest'' else n)
         (names forest_eg)
       @ map (\<lambda>n. if n \<in> set (names forest_eg) then n @ ''_grassland'' else n)
           (filter (\<lambda>n. n \<noteq> ''AcceptedTSN'') (names grassland_eg))"
proof -
  have h: "merge_habitats forest_eg grassland_eg = Inr merged_eg" by code_simp
  from h key_never_suffixed_others_by_origin[OF h] show ?thesis by (rule conjI)
qed


lemma matches_empty: "matches g j k rs = [] \<longleftrightarrow> (\<forall>rr \<in> set rs. \<not> key_eq k (g (cell_at rr j)))"
  by (simp add: matches_def filter_empty_conv)

lemma set_matches: "set (matches g j k rs) = {rr \<in> set rs. key_eq k (g (cell_at rr j))}"
  by (simp add: matches_def)

lemma left_rows_mem:
  "row \<in> set (left_rows gl gr kl i j w ls rs) \<longleftrightarrow>
     (\<exists>lr \<in> set ls.
        (matches gr j (gl (cell_at lr i)) rs = [] \<and> row = lr[i := kl (cell_at lr i)] @ replicate w NA)
      \<or> (\<exists>rr \<in> set rs. key_eq (gl (cell_at lr i)) (gr (cell_at rr j))
            \<and> row = lr[i := kl (cell_at lr i)] @ drop_nth j rr))"
proof -
  let ?blk = "\<lambda>lr. (case matches gr j (gl (cell_at lr i)) rs of
                 [] \<Rightarrow> [lr[i := kl (cell_at lr i)] @ replicate w NA]
               | ms \<Rightarrow> map (\<lambda>rr. lr[i := kl (cell_at lr i)] @ drop_nth j rr) ms)"
  have blk: "row \<in> set (?blk lr) \<longleftrightarrow>
        ((matches gr j (gl (cell_at lr i)) rs = [] \<and> row = lr[i := kl (cell_at lr i)] @ replicate w NA)
      \<or> (\<exists>rr \<in> set rs. key_eq (gl (cell_at lr i)) (gr (cell_at rr j))
            \<and> row = lr[i := kl (cell_at lr i)] @ drop_nth j rr))" for lr
  proof (cases "matches gr j (gl (cell_at lr i)) rs")
    case Nil
    have n1: "\<not> (\<exists>rr \<in> set rs. key_eq (gl (cell_at lr i)) (gr (cell_at rr j))
                 \<and> row = lr[i := kl (cell_at lr i)] @ drop_nth j rr)"
      using Nil matches_empty[of gr j "gl (cell_at lr i)" rs] by blast
    have e: "row \<in> set (?blk lr) \<longleftrightarrow> row = lr[i := kl (cell_at lr i)] @ replicate w NA"
      using Nil by simp
    show ?thesis unfolding e using Nil n1 by blast
  next
    case (Cons a as)
    have ms: "set (matches gr j (gl (cell_at lr i)) rs)
                = {rr \<in> set rs. key_eq (gl (cell_at lr i)) (gr (cell_at rr j))}"
      by (rule set_matches)
    have "?blk lr = map (\<lambda>rr. lr[i := kl (cell_at lr i)] @ drop_nth j rr)
                      (matches gr j (gl (cell_at lr i)) rs)"
      using Cons by simp
    then have "row \<in> set (?blk lr) \<longleftrightarrow>
        row \<in> (\<lambda>rr. lr[i := kl (cell_at lr i)] @ drop_nth j rr)
                ` {rr \<in> set rs. key_eq (gl (cell_at lr i)) (gr (cell_at rr j))}"
      by (simp only: set_map ms)
    also have "\<dots> \<longleftrightarrow>
        (\<exists>rr \<in> set rs. key_eq (gl (cell_at lr i)) (gr (cell_at rr j))
            \<and> row = lr[i := kl (cell_at lr i)] @ drop_nth j rr)"
      by blast
    finally show ?thesis using Cons by simp
  qed
  have "row \<in> set (left_rows gl gr kl i j w ls rs) \<longleftrightarrow> (\<exists>lr \<in> set ls. row \<in> set (?blk lr))"
    unfolding left_rows_def by (simp only: set_concat set_map) blast
  then show ?thesis by (simp only: blk)
qed

lemma right_only_rows_mem:
  "row \<in> set (right_only_rows kr i j w (unmatched gl gr i j ls rs)) \<longleftrightarrow>
     (\<exists>rr \<in> set rs. (\<forall>lr \<in> set ls. \<not> key_eq (gr (cell_at rr j)) (gl (cell_at lr i)))
        \<and> row = (replicate w NA)[i := kr (cell_at rr j)] @ drop_nth j rr)"
  unfolding right_only_rows_def unmatched_def by (auto simp: matches_empty)





lemma rect_row: "rect t \<Longrightarrow> row \<in> set (rows t) \<Longrightarrow> length row = length (cols t)"
  by (simp add: rect_def list_all_iff)


lemma length_cast_at: "length (cast_at ps r) = length r"
  by (simp add: cast_at_def)




lemma key_dtype_index: "index_of ''AcceptedTSN'' (names t) = Some i \<Longrightarrow> key_dtype t = snd (cols t ! i)"
  by (simp add: key_dtype_def)

lemma join_key_plain:
  "\<not> (d = DInt \<and> d' = DFloat \<or> d = DFloat \<and> d' = DInt) \<Longrightarrow> join_key d d' c = c \<and> join_key d' d c = c"
  by (auto simp: join_key_def)

text \<open>
  The rows of the merged frame: each is a row of the join with the int64 cells of
  the columns that received missing cells converted; the key is not among them.
\<close>

lemma merge_rows_forms:
  assumes "merge_habitats l r = Inr m"
  obtains i j gl gr kl kr ps where "index_of ''AcceptedTSN'' (names l) = Some i"
    and "index_of ''AcceptedTSN'' (names r) = Some j"
    and "i < length (cols l)" and "j < length (cols r)"
    and "length (cols m) = length (cols l) + length (cols r) - 1"
    and "rows m = map (cast_at ps)
           (left_rows gl gr kl i j (length (cols r) - 1) (rows l) (rows r)
            @ right_only_rows kr i j (length (cols l)) (unmatched gl gr i j (rows l) (rows r)))"
    and "i \<notin> set ps"
    and "\<forall>row. key_of l row = cell_at row i"
    and "\<forall>row. key_of r row = cell_at row j"
    and "\<forall>row. key_of m row = cell_at row i"
    and "\<not> int_float_keys l r \<longrightarrow> (\<forall>c. gl c = c \<and> gr c = c \<and> kl c = c \<and> kr c = c)"
proof -
  from assms have mo: "merge_outer l r ''AcceptedTSN'' (''_forest'', ''_grassland'') = Inr m"
    by (simp add: merge_habitats_def)
  from mo obtain i j where i: "index_of ''AcceptedTSN'' (names l) = Some i"
    and j: "index_of ''AcceptedTSN'' (names r) = Some j"
    and cl: "count_list (names l) ''AcceptedTSN'' = 1"
    and cr: "count_list (names r) ''AcceptedTSN'' = 1"
    and n: "names m = map (suffix_name (drop_nth j (names r)) (fst (''_forest'', ''_grassland''))) (names l)
                 @ map (suffix_name (names l) (snd (''_forest'', ''_grassland''))) (drop_nth j (names r))"
    and lc: "length (cols m) = length (cols l) + length (cols r) - 1"
    and ex: "\<exists>ps kl kr. i \<notin> set ps
           \<and> (\<forall>c. kl c = c \<or> kl c = join_key (snd (cols l ! i)) (snd (cols r ! j)) c)
           \<and> (\<forall>c. kr c = c \<or> kr c = join_key (snd (cols r ! j)) (snd (cols l ! i)) c)
           \<and> rows m = map (cast_at ps)
               (left_rows (join_key (snd (cols l ! i)) (snd (cols r ! j)))
                          (join_key (snd (cols r ! j)) (snd (cols l ! i))) kl
                          i j (length (cols r) - 1) (rows l) (rows r)
                @ right_only_rows kr i j (length (cols l))
                    (unmatched (join_key (snd (cols l ! i)) (snd (cols r ! j)))
                               (join_key (snd (cols r ! j)) (snd (cols l ! i)))
                               i j (rows l) (rows r)))"
    by (rule merge_outer_InrD)
  define gl where "gl = join_key (snd (cols l ! i)) (snd (cols r ! j))"
  define gr where "gr = join_key (snd (cols r ! j)) (snd (cols l ! i))"
  from ex obtain ps kl kr where ips: "i \<notin> set ps"
    and kls: "\<forall>c. kl c = c \<or> kl c = gl c" and krs: "\<forall>c. kr c = c \<or> kr c = gr c"
    and rw: "rows m = map (cast_at ps)
           (left_rows gl gr kl i j (length (cols r) - 1) (rows l) (rows r)
            @ right_only_rows kr i j (length (cols l)) (unmatched gl gr i j (rows l) (rows r)))"
    unfolding gl_def gr_def by blast
  from index_of_Some[OF i] have il: "i < length (cols l)" by (simp add: names_def)
  from index_of_Some[OF j] have jl: "j < length (cols r)" by (simp add: names_def)
  have im: "index_of ''AcceptedTSN'' (names m) = Some i"
    using merge_habitats_names(2)[OF assms] i by simp
  have kl': "\<forall>row. key_of l row = cell_at row i" by (simp add: key_of_def i)
  have kr': "\<forall>row. key_of r row = cell_at row j" by (simp add: key_of_def j)
  have km: "\<forall>row. key_of m row = cell_at row i" by (simp add: key_of_def im)
  have plain: "\<not> int_float_keys l r \<longrightarrow> (\<forall>c. gl c = c \<and> gr c = c \<and> kl c = c \<and> kr c = c)"
  proof
    assume "\<not> int_float_keys l r"
    then have "\<not> (snd (cols l ! i) = DInt \<and> snd (cols r ! j) = DFloat
                \<or> snd (cols l ! i) = DFloat \<and> snd (cols r ! j) = DInt)"
      by (simp add: int_float_keys_def key_dtype_index[OF i] key_dtype_index[OF j])
    from join_key_plain[OF this] have g: "gl c = c \<and> gr c = c" for c
      by (simp add: gl_def gr_def)
    with kls krs show "\<forall>c. gl c = c \<and> gr c = c \<and> kl c = c \<and> kr c = c" by metis
  qed
  from that[OF i j il jl lc rw ips kl' kr' km plain] show thesis .
qed

lemma merge_rect:
  assumes "merge_habitats l r = Inr m" and "rect l" and "rect r"
  shows "rect m"
proof -
  from assms(1) obtain i j gl gr kl kr ps where i: "index_of ''AcceptedTSN'' (names l) = Some i"
    and j: "index_of ''AcceptedTSN'' (names r) = Some j"
    and il: "i < length (cols l)" and jl: "j < length (cols r)"
    and lc: "length (cols m) = length (cols l) + length (cols r) - 1"
    and rw: "rows m = map (cast_at ps)
           (left_rows gl gr kl i j (length (cols r) - 1) (rows l) (rows r)
            @ right_only_rows kr i j (length (cols l)) (unmatched gl gr i j (rows l) (rows r)))"
    by (rule merge_rows_forms)
  let ?L = "left_rows gl gr kl i j (length (cols r) - 1) (rows l) (rows r)"
  let ?R = "right_only_rows kr i j (length (cols l)) (unmatched gl gr i j (rows l) (rows r))"
  have raw: "length row = length (cols m)" if "row \<in> set (?L @ ?R)" for row
  proof -
    from that consider "row \<in> set ?L" | "row \<in> set ?R" by auto
    then show ?thesis
    proof cases
      case 1
      then obtain lr where lr: "lr \<in> set (rows l)"
        and d: "row = lr[i := kl (cell_at lr i)] @ replicate (length (cols r) - 1) NA
              \<or> (\<exists>rr \<in> set (rows r). row = lr[i := kl (cell_at lr i)] @ drop_nth j rr)"
        unfolding left_rows_mem by blast
      from d show ?thesis
      proof
        assume "row = lr[i := kl (cell_at lr i)] @ replicate (length (cols r) - 1) NA"
        then show ?thesis using rect_row[OF assms(2) lr] lc jl by simp
      next
        assume "\<exists>rr \<in> set (rows r). row = lr[i := kl (cell_at lr i)] @ drop_nth j rr"
        then obtain rr where rr: "rr \<in> set (rows r)"
          and e: "row = lr[i := kl (cell_at lr i)] @ drop_nth j rr" by blast
        show ?thesis
          using rect_row[OF assms(2) lr] rect_row[OF assms(3) rr] lc jl e
          by (simp add: length_drop_nth)
      qed
    next
      case 2
      then obtain rr where rr: "rr \<in> set (rows r)"
        and e: "row = (replicate (length (cols l)) NA)[i := kr (cell_at rr j)] @ drop_nth j rr"
        unfolding right_only_rows_mem by blast
      show ?thesis using rect_row[OF assms(3) rr] lc jl e by (simp add: length_drop_nth)
    qed
  qed
  have "length row = length (cols m)" if "row \<in> set (rows m)" for row
  proof -
    from that obtain row0 where "row0 \<in> set (?L @ ?R)" and "row = cast_at ps row0"
      unfolding rw by auto
    with raw[of row0] show ?thesis by (simp add: length_cast_at)
  qed
  then show ?thesis by (simp add: rect_def list_all_iff)
qed






lemma distinct_nth_take: "distinct xs \<Longrightarrow> p < length xs \<Longrightarrow> xs ! p \<notin> set (take p xs)"
proof
  assume d: "distinct xs" and p: "p < length xs" and m: "xs ! p \<in> set (take p xs)"
  from m obtain q where q: "q < length (take p xs)" and e: "take p xs ! q = xs ! p"
    unfolding in_set_conv_nth by blast
  from q p have qp: "q < p" by simp
  with e have e': "xs ! q = xs ! p" by simp
  from qp p have ql: "q < length xs" by simp
  from nth_eq_iff_index_eq[OF d ql p] e' have "q = p" by (rule iffD1)
  with qp show False by simp
qed

lemma distinct_from_take:
  assumes "\<And>p. p < length xs \<Longrightarrow> xs ! p \<notin> set (take p xs)"
  shows "distinct xs"
proof -
  have ne: "xs ! i \<noteq> xs ! j" if ij: "i < j" and j: "j < length xs" for i j
  proof
    assume e: "xs ! i = xs ! j"
    have il: "i < length (take j xs)" using ij j by simp
    have "take j xs ! i \<in> set (take j xs)" by (rule nth_mem[OF il])
    with ij have "xs ! i \<in> set (take j xs)" by simp
    with e assms[OF j] show False by simp
  qed
  show ?thesis unfolding distinct_conv_nth
  proof (intro allI impI)
    fix i j assume i: "i < length xs" and j: "j < length xs" and n: "i \<noteq> j"
    from n consider "i < j" | "j < i" by linarith
    then show "xs ! i \<noteq> xs ! j"
    proof cases
      case 1
      from ne[OF 1 j] show ?thesis .
    next
      case 2
      from ne[OF 2 i] show ?thesis by (rule not_sym)
    qed
  qed
qed

lemma no_suffix_dups_distinct:
  assumes "distinct old" and "length new = length old" and "\<not> suffix_dups old new"
  shows "distinct new"
proof (rule distinct_from_take)
  fix p assume p: "p < length new"
  with assms(2) have po: "p < length old" by simp
  from assms(3) po have "\<not> (new ! p \<in> set (take p new) \<and> old ! p \<notin> set (take p old))"
    by (auto simp: suffix_dups_def list_ex_iff)
  with distinct_nth_take[OF assms(1) po] show "new ! p \<notin> set (take p new)" by blast
qed

lemma merge_outer_no_dups:
  assumes "merge_outer l r k sfx = Inr m" and "index_of k (names r) = Some j"
  shows "\<not> suffix_dups (names l) (map (suffix_name (drop_nth j (names r)) (fst sfx)) (names l))"
    and "\<not> suffix_dups (drop_nth j (names r))
            (map (suffix_name (names l) (snd sfx)) (drop_nth j (names r)))"
    and "\<not> suffix_clash (map (suffix_name (drop_nth j (names r)) (fst sfx)) (names l))
            (drop_nth j (names r)) (names l)"
    and "\<not> suffix_clash (map (suffix_name (names l) (snd sfx)) (drop_nth j (names r)))
            (names l) (drop_nth j (names r))"
proof -
  have fr: "map fst (drop_nth j (cols r)) = drop_nth j (names r)"
    by (simp add: map_drop_nth names_def)
  from assms obtain i where i: "index_of k (names l) = Some i"
    by (auto simp: merge_outer_def split: option.splits)
  from assms i have
    "\<not> (suffix_dups (names l) (map (suffix_name (map fst (drop_nth j (cols r))) (fst sfx)) (names l))
        \<or> suffix_dups (map fst (drop_nth j (cols r)))
             (map (suffix_name (names l) (snd sfx)) (map fst (drop_nth j (cols r))))
        \<or> suffix_clash (map (suffix_name (map fst (drop_nth j (cols r))) (fst sfx)) (names l))
             (map fst (drop_nth j (cols r))) (names l)
        \<or> suffix_clash (map (suffix_name (names l) (snd sfx)) (map fst (drop_nth j (cols r))))
             (names l) (map fst (drop_nth j (cols r))))"
    unfolding merge_outer_def by (simp add: Let_def split: if_splits)
  then show
    "\<not> suffix_dups (names l) (map (suffix_name (drop_nth j (names r)) (fst sfx)) (names l))"
    "\<not> suffix_dups (drop_nth j (names r))
            (map (suffix_name (names l) (snd sfx)) (drop_nth j (names r)))"
    "\<not> suffix_clash (map (suffix_name (drop_nth j (names r)) (fst sfx)) (names l))
            (drop_nth j (names r)) (names l)"
    "\<not> suffix_clash (map (suffix_name (names l) (snd sfx)) (drop_nth j (names r)))
            (names l) (drop_nth j (names r))"
    unfolding fr by blast+
qed

lemma suffixes_differ: "a @ ''_forest'' \<noteq> b @ ''_grassland''"
proof
  assume "a @ ''_forest'' = b @ ''_grassland''"
  then have "last (a @ ''_forest'') = last (b @ ''_grassland'')" by (rule arg_cong)
  then show False by simp
qed

text \<open>
  The join keeps labels unique: two frames with unique labels give, when the join
  succeeds, a merged frame with unique labels. The normaliser therefore meets
  frames with unique labels only, which is what the statement of its failures
  asks for.
\<close>

lemma merge_habitats_distinct:
  assumes "merge_habitats l r = Inr m" and "distinct (names l)" and "distinct (names r)"
  shows "distinct (names m)"
proof -
  let ?k = "''AcceptedTSN''"
  from assms(1) have mo: "merge_outer l r ?k (''_forest'', ''_grassland'') = Inr m"
    by (simp add: merge_habitats_def)
  from mo obtain i j where i: "index_of ?k (names l) = Some i"
    and j: "index_of ?k (names r) = Some j"
    and cl: "count_list (names l) ?k = 1" and cr: "count_list (names r) ?k = 1"
    and n: "names m = map (suffix_name (drop_nth j (names r)) ''_forest'') (names l)
                   @ map (suffix_name (names l) ''_grassland'') (drop_nth j (names r))"
    by (rule merge_outer_InrD) simp
  let ?L = "names l"
  let ?R = "drop_nth j (names r)"
  let ?ln = "map (suffix_name ?R ''_forest'') ?L"
  let ?rn = "map (suffix_name ?L ''_grassland'') ?R"
  note D = merge_outer_no_dups[OF mo j]
  have dR: "distinct ?R" using assms(3) by (simp add: drop_nth_filter[OF j cr])
  have d1: "distinct ?ln" using no_suffix_dups_distinct[OF assms(2) _ ] D(1) by simp
  have d2: "distinct ?rn" using no_suffix_dups_distinct[OF dR _ ] D(2) by simp
  have c1: "\<not> (x \<in> set ?R \<and> x \<notin> set ?L)" if "x \<in> set ?ln" for x
    using D(3) that by (simp only: fst_conv suffix_clash_def list_ex_iff) blast
  have c2: "\<not> (x \<in> set ?L \<and> x \<notin> set ?R)" if "x \<in> set ?rn" for x
    using D(4) that by (simp only: snd_conv suffix_clash_def list_ex_iff) blast
  have disj: "set ?ln \<inter> set ?rn = {}"
  proof (rule ccontr)
    assume "set ?ln \<inter> set ?rn \<noteq> {}"
    then obtain x where xl: "x \<in> set ?ln" and xr: "x \<in> set ?rn" by blast
    from xl obtain a where a: "a \<in> set ?L" and xa: "x = suffix_name ?R ''_forest'' a"
      unfolding set_map by (rule imageE)
    from xr obtain b where b: "b \<in> set ?R" and xb: "x = suffix_name ?L ''_grassland'' b"
      unfolding set_map by (rule imageE)
    show False
    proof (cases "a \<in> set ?R")
      case aR: True
      then have xa': "x = a @ ''_forest''" by (simp only: xa suffix_name_def if_True)
      show False
      proof (cases "b \<in> set ?L")
        case True
        then have "x = b @ ''_grassland''" by (simp only: xb suffix_name_def if_True)
        with xa'[symmetric] have "a @ ''_forest'' = b @ ''_grassland''" by (rule trans)
        with suffixes_differ[of a b] show False by (rule notE)
      next
        case False
        then have "x = b" by (simp only: xb suffix_name_def if_False)
        with b False have "x \<in> set ?R \<and> x \<notin> set ?L" by (simp only: simp_thms)
        with c1[OF xl] show False by (rule notE)
      qed
    next
      case aR: False
      then have xa': "x = a" by (simp only: xa suffix_name_def if_False)
      with a aR have "x \<in> set ?L \<and> x \<notin> set ?R" by (simp only: simp_thms)
      with c2[OF xr] show False by (rule notE)
    qed
  qed
  from d1 d2 disj show ?thesis unfolding n by (simp only: distinct_append simp_thms)
qed

section \<open>Joined, filled, converted\<close>

lemma preprocess_data_normalize:
  assumes "merge_habitats f g = Inr m" and "preprocess_data sp (Some f) (Some g) = Inr (Some t)"
  shows "normalize_table sp m = Inr t"
  using assms by (simp add: preprocess_data_def merge_habitats_def split: sum.splits)

lemma cols_nth: "p < length (cols t) \<Longrightarrow> cols t ! p = (names t ! p, dtypes t ! p)"
  by (simp add: names_def dtypes_def)

lemma fill_cell_role: "d = DInt \<or> d = DFloat \<or> d = DObject \<Longrightarrow> fill_cell d c \<noteq> NA"
  by (auto simp: fill_cell_def is_number_def is_object_def)

lemma fill_cell_cases:
  "d = DInt \<or> d = DFloat \<Longrightarrow> fill_cell d c = (if c = NA then Num 0 else c)"
  "d = DObject \<Longrightarrow> fill_cell d c = (if c = NA then Str ''Unknown'' else c)"
  "d = DBool \<or> d = DDatetime \<Longrightarrow> fill_cell d c = c"
  by (auto simp: fill_cell_def is_number_def is_object_def)

text \<open>
  Claim C1, as amended. Take a cell of the merged frame in a column other than the
  six designated date and time columns. Normalisation keeps the column's label and
  dtype; in a numeric column a missing cell becomes \<open>0\<close> and in an object column it
  becomes \<open>"Unknown"\<close>, any other cell is kept, and so no cell of such a column is
  missing in the output.
\<close>

theorem imputation_outside_date_time_columns:
  assumes "merge_habitats f g = Inr m"
    and "preprocess_data sp (Some f) (Some g) = Inr (Some t)"
    and "rect f" and "rect g"
    and "k < length (rows m)" and "p < length (cols m)"
    and "names m ! p \<notin> set (date_columns @ time_columns)"
  shows "cols t ! p = cols m ! p
       \<and> (dtypes m ! p = DInt \<or> dtypes m ! p = DFloat \<longrightarrow>
            cell_at (rows t ! k) p =
              (if cell_at (rows m ! k) p = NA then Num 0 else cell_at (rows m ! k) p))
       \<and> (dtypes m ! p = DObject \<longrightarrow>
            cell_at (rows t ! k) p =
              (if cell_at (rows m ! k) p = NA then Str ''Unknown'' else cell_at (rows m ! k) p))
       \<and> (dtypes m ! p = DInt \<or> dtypes m ! p = DFloat \<or> dtypes m ! p = DObject
            \<longrightarrow> cell_at (rows t ! k) p \<noteq> NA)"
proof -
  have rm: "rect m" by (rule merge_rect[OF assms(1,3,4)])
  have nt: "normalize_table sp m = Inr t" by (rule preprocess_data_normalize[OF assms(1,2)])
  note N = normalize_props[OF nt rm]
  have c: "cell_at (rows t ! k) p = fill_cell (dtypes m ! p) (cell_at (rows m ! k) p)"
    using N(5)[OF assms(5,6)] conv_of_other[OF assms(7)] by simp
  have d: "dtypes t ! p = dtypes m ! p"
    using N(6)[OF assms(6)] dtype_of_other[OF assms(7)] by simp
  have "cols t ! p = (names t ! p, dtypes t ! p)" using assms(6) N(4) by (simp add: cols_nth)
  also have "\<dots> = (names m ! p, dtypes m ! p)" using N(1) d by simp
  also have "\<dots> = cols m ! p" using assms(6) by (simp add: cols_nth)
  finally have a: "cols t ! p = cols m ! p" .
  have b1: "dtypes m ! p = DInt \<or> dtypes m ! p = DFloat \<longrightarrow>
            cell_at (rows t ! k) p =
              (if cell_at (rows m ! k) p = NA then Num 0 else cell_at (rows m ! k) p)"
    unfolding c using fill_cell_cases(1) by blast
  have b2: "dtypes m ! p = DObject \<longrightarrow>
            cell_at (rows t ! k) p =
              (if cell_at (rows m ! k) p = NA then Str ''Unknown'' else cell_at (rows m ! k) p)"
    unfolding c using fill_cell_cases(2) by blast
  have b3: "dtypes m ! p = DInt \<or> dtypes m ! p = DFloat \<or> dtypes m ! p = DObject
            \<longrightarrow> cell_at (rows t ! k) p \<noteq> NA"
    unfolding c using fill_cell_role by blast
  from a b1 b2 b3 show ?thesis by (intro conjI)
qed

text \<open>
  The claim as stated fails on Scenario A: the grassland start time of the forest
  row is a missing cell of an object column, at the fill and in the output.
\<close>

theorem imputation_totality_counterexample:
  "merge_habitats forest_eg grassland_eg = Inr merged_eg
   \<and> cols merged_eg ! 7 = (''Start_Time_grassland'', DObject)
   \<and> preprocess_data strptime_eg (Some forest_eg) (Some grassland_eg) = Inr (Some normalized_eg)
   \<and> cols normalized_eg ! 7 = (''Start_Time_grassland'', DObject)
   \<and> cell_at (rows normalized_eg ! 0) 7 = NA
   \<and> \<not> no_missing_in_role_columns normalized_eg"
  by code_simp

theorem imputation_outside_date_time_columns_witness:
  "merge_habitats forest_eg grassland_eg = Inr merged_eg
   \<and> preprocess_data strptime_eg (Some forest_eg) (Some grassland_eg) = Inr (Some normalized_eg)
   \<and> rect forest_eg \<and> rect grassland_eg
   \<and> 0 < length (rows merged_eg) \<and> 9 < length (cols merged_eg)
   \<and> names merged_eg ! 9 \<notin> set (date_columns @ time_columns)
   \<and> dtypes merged_eg ! 9 = DObject
   \<and> cell_at (rows merged_eg ! 0) 9 = NA
   \<and> cols normalized_eg ! 9 = cols merged_eg ! 9
   \<and> cell_at (rows normalized_eg ! 0) 9 = Str ''Unknown''"
proof -
  have h1: "merge_habitats forest_eg grassland_eg = Inr merged_eg" by code_simp
  have h2: "preprocess_data strptime_eg (Some forest_eg) (Some grassland_eg) = Inr (Some normalized_eg)"
    by code_simp
  have h3: "rect forest_eg" by code_simp
  have h4: "rect grassland_eg" by code_simp
  have h5: "0 < length (rows merged_eg)" by code_simp
  have h6: "9 < length (cols merged_eg)" by code_simp
  have h7: "names merged_eg ! 9 \<notin> set (date_columns @ time_columns)" by code_simp
  have d: "dtypes merged_eg ! 9 = DObject" by code_simp
  have na: "cell_at (rows merged_eg ! 0) 9 = NA" by code_simp
  note T = imputation_outside_date_time_columns[OF h1 h2 h3 h4 h5 h6 h7]
  have a: "cols normalized_eg ! 9 = cols merged_eg ! 9" by (rule T[THEN conjunct1])
  have b: "cell_at (rows normalized_eg ! 0) 9 = Str ''Unknown''"
    using T[THEN conjunct2, THEN conjunct2, THEN conjunct1, rule_format, OF d]
    by (simp only: na if_True simp_thms)
  show ?thesis by (simp only: h1 h2 h3 h4 h5 h6 h7 d na a b simp_thms)
qed

text \<open>
  Claim C9, as amended. After the join and the fill, a cell of a numeric column is
  the merged cell, or \<open>0\<close> where that was missing, and a cell of an object column is
  the merged cell, or \<open>"Unknown"\<close> where that was missing: no such cell is missing,
  the species key included when its column is numeric or an object column. The
  cells of a boolean or datetime64 column are as the join left them.
\<close>

theorem filled_frame_numeric_and_object_cells_present:
  assumes "merge_habitats f g = Inr m" and "fill_missing m = Inr fm"
    and "rect f" and "rect g"
    and "k < length (rows m)" and "p < length (cols m)"
  shows "(dtypes m ! p = DInt \<or> dtypes m ! p = DFloat \<longrightarrow>
            cell_at (rows fm ! k) p =
              (if cell_at (rows m ! k) p = NA then Num 0 else cell_at (rows m ! k) p))
       \<and> (dtypes m ! p = DObject \<longrightarrow>
            cell_at (rows fm ! k) p =
              (if cell_at (rows m ! k) p = NA then Str ''Unknown'' else cell_at (rows m ! k) p))
       \<and> (dtypes m ! p = DInt \<or> dtypes m ! p = DFloat \<or> dtypes m ! p = DObject \<longrightarrow>
            cell_at (rows fm ! k) p \<noteq> NA)
       \<and> (dtypes m ! p = DBool \<or> dtypes m ! p = DDatetime \<longrightarrow>
            cell_at (rows fm ! k) p = cell_at (rows m ! k) p)
       \<and> (names m ! p = ''AcceptedTSN'' \<longrightarrow>
            key_of fm (rows fm ! k) = cell_at (rows fm ! k) p)"
proof -
  have rm: "rect m" by (rule merge_rect[OF assms(1,3,4)])
  note F = fill_missing_props[OF assms(2) rm]
  have c: "cell_at (rows fm ! k) p = fill_cell (dtypes m ! p) (cell_at (rows m ! k) p)"
    by (rule F(4)[OF assms(5,6)])
  have key: "key_of fm row = cell_at row p" if np: "names m ! p = ''AcceptedTSN''" for row
  proof -
    have nm: "names fm = names m" using F(1) by (simp add: names_def)
    note cnt = merge_habitats_names(1)[OF assms(1)]
    have "''AcceptedTSN'' \<in> set (names m)"
    proof (rule ccontr)
      assume "''AcceptedTSN'' \<notin> set (names m)"
      then have "count_list (names m) ''AcceptedTSN'' = 0" by (rule count_notin)
      with cnt show False by simp
    qed
    then obtain i where i: "index_of ''AcceptedTSN'' (names m) = Some i"
      by (cases "index_of ''AcceptedTSN'' (names m)") (auto simp: index_of_None)
    from index_of_Some[OF i] have il: "i < length (names m)" and ni: "names m ! i = ''AcceptedTSN''"
      by simp_all
    have pl: "p < length (names m)" using assms(6) by (simp add: names_def)
    have "p = i" by (rule count_list_one_unique[OF cnt pl il np ni])
    then show ?thesis using i nm by (simp add: key_of_def)
  qed
  have b1: "dtypes m ! p = DInt \<or> dtypes m ! p = DFloat \<longrightarrow>
            cell_at (rows fm ! k) p =
              (if cell_at (rows m ! k) p = NA then Num 0 else cell_at (rows m ! k) p)"
    unfolding c using fill_cell_cases(1) by blast
  have b2: "dtypes m ! p = DObject \<longrightarrow>
            cell_at (rows fm ! k) p =
              (if cell_at (rows m ! k) p = NA then Str ''Unknown'' else cell_at (rows m ! k) p)"
    unfolding c using fill_cell_cases(2) by blast
  have b3: "dtypes m ! p = DInt \<or> dtypes m ! p = DFloat \<or> dtypes m ! p = DObject
            \<longrightarrow> cell_at (rows fm ! k) p \<noteq> NA"
    unfolding c using fill_cell_role by blast
  have b4: "dtypes m ! p = DBool \<or> dtypes m ! p = DDatetime \<longrightarrow>
            cell_at (rows fm ! k) p = cell_at (rows m ! k) p"
    unfolding c using fill_cell_cases(3) by blast
  have b5: "names m ! p = ''AcceptedTSN'' \<longrightarrow> key_of fm (rows fm ! k) = cell_at (rows fm ! k) p"
    using key by blast
  from b1 b2 b3 b4 b5 show ?thesis by (intro conjI)
qed

text \<open>
  The claim as stated fails where a date column is a datetime64 column, as a
  spreadsheet reader delivers it: the grassland date of the forest row is missing
  after the fill, and still missing in the output.
\<close>

theorem merged_frame_presence_counterexample:
  "merge_habitats forest_xl_eg grassland_xl_eg = Inr merged_xl_eg
   \<and> cols merged_xl_eg ! 4 = (''Date_grassland'', DDatetime)
   \<and> fill_missing merged_xl_eg = Inr filled_xl_eg
   \<and> cell_at (rows filled_xl_eg ! 0) 4 = NA
   \<and> \<not> no_missing_cells filled_xl_eg
   \<and> preprocess_data strptime_eg (Some forest_xl_eg) (Some grassland_xl_eg)
       = Inr (Some normalized_xl_eg)
   \<and> cell_at (rows normalized_xl_eg ! 0) 4 = NA
   \<and> \<not> no_missing_cells normalized_xl_eg"
  by code_simp

theorem filled_frame_numeric_and_object_cells_present_witness:
  "merge_habitats forest_eg grassland_eg = Inr merged_eg
   \<and> fill_missing merged_eg = Inr filled_eg
   \<and> rect forest_eg \<and> rect grassland_eg
   \<and> 0 < length (rows merged_eg) \<and> 10 < length (cols merged_eg)
   \<and> dtypes merged_eg ! 10 = DFloat \<and> cell_at (rows merged_eg ! 0) 10 = NA
   \<and> cell_at (rows filled_eg ! 0) 10 = Num 0
   \<and> cell_at (rows filled_eg ! 0) 10 \<noteq> NA"
proof -
  have h1: "merge_habitats forest_eg grassland_eg = Inr merged_eg" by code_simp
  have hf: "fill_missing merged_eg = Inr filled_eg" by code_simp
  have h2: "rect forest_eg" by code_simp
  have h3: "rect grassland_eg" by code_simp
  have h4: "0 < length (rows merged_eg)" by code_simp
  have h5: "10 < length (cols merged_eg)" by code_simp
  have d: "dtypes merged_eg ! 10 = DFloat" by code_simp
  have na: "cell_at (rows merged_eg ! 0) 10 = NA" by code_simp
  note T = filled_frame_numeric_and_object_cells_present[OF h1 hf h2 h3 h4 h5]
  have a: "cell_at (rows filled_eg ! 0) 10 = Num 0"
    using T[THEN conjunct1, rule_format, OF disjI2, OF d] by (simp only: na if_True simp_thms)
  have b: "cell_at (rows filled_eg ! 0) 10 \<noteq> NA"
    using T[THEN conjunct2, THEN conjunct2, THEN conjunct1, rule_format, OF disjI2, OF disjI1, OF d] .
  show ?thesis using h1 hf h2 h3 h4 h5 d na a b by (intro conjI)
qed

text \<open>
  The fill does not raise on the frame the join gives of two frames with unique
  labels, so the statement above speaks of every such join.
\<close>

lemma fill_missing_after_merge:
  assumes "merge_habitats f g = Inr m" and "distinct (names f)" and "distinct (names g)"
  shows "\<exists>fm. fill_missing m = Inr fm"
  by (rule fill_missing_total[OF merge_habitats_distinct[OF assms]])

section \<open>Row counts and one-sided rows\<close>















section \<open>Normalising twice\<close>

lemma to_time_again:
  assumes "whole_second (to_time sp c)"
  shows "to_time sp' (fill_cell DObject (to_time sp c)) = to_time sp c"
proof -
  from to_time_cases[of sp c] consider "to_time sp c = NA" | td where "to_time sp c = Time td"
    by blast
  then show ?thesis
  proof cases
    case 1
    then show ?thesis by (simp add: to_time_fill_NA)
  next
    case 2
    obtain h mi se us where td: "td = Tod h mi se us" by (cases td)
    from assms 2 td have "us = 0" by (simp add: whole_second_def)
    with 2 td show ?thesis by (simp add: fill_cell_not_NA to_time_def)
  qed
qed

lemma to_date_again: "to_date sp' (fill_cell DDatetime (to_date sp c)) = to_date sp c"
  using to_date_cases[of sp c] by (auto simp: fill_cell_def is_number_def is_object_def to_date_def)

lemma fill_cell_again: "fill_cell d (fill_cell d c) = fill_cell d c"
  by (simp add: fill_cell_def)

lemma dtype_of_date: "n \<in> set date_columns \<Longrightarrow> dtype_of (conversions sp) n d = DDatetime"
  by (auto simp: date_columns_def dtype_of_def conversions_def)

lemma dtype_of_time: "n \<in> set time_columns \<Longrightarrow> dtype_of (conversions sp) n d = DObject"
  by (auto simp: time_columns_def dtype_of_def conversions_def)

lemma normalize_cell_again:
  assumes "n \<in> set time_columns \<longrightarrow> whole_second (conv_of (conversions sp) n (fill_cell d c))"
  shows "conv_of (conversions sp') n
           (fill_cell (dtype_of (conversions sp) n d) (conv_of (conversions sp) n (fill_cell d c)))
           = conv_of (conversions sp) n (fill_cell d c)"
proof -
  consider "n \<in> set date_columns" | "n \<in> set time_columns"
    | "n \<notin> set (date_columns @ time_columns)" by auto
  then show ?thesis
  proof cases
    case 1
    then show ?thesis by (simp add: conv_of_date dtype_of_date to_date_again)
  next
    case 2
    with assms have "whole_second (to_time sp (fill_cell d c))" by (simp add: conv_of_time)
    with 2 show ?thesis by (simp add: conv_of_time dtype_of_time to_time_again)
  next
    case 3
    then show ?thesis by (simp add: conv_of_other dtype_of_other fill_cell_again)
  qed
qed

lemma dtype_of_again: "dtype_of cs n (dtype_of cs n d) = dtype_of cs n d"
  by (simp add: dtype_of_def split: option.splits)

lemma assign_col_total_count:
  "count_list (names t) n = 1 \<Longrightarrow> \<exists>t'. assign_col n f d t = Inr t'"
proof -
  assume c: "count_list (names t) n = 1"
  have "n \<in> set (names t)"
  proof (rule ccontr)
    assume "n \<notin> set (names t)"
    then have "count_list (names t) n = 0" by (rule count_notin)
    with c show False by simp
  qed
  then obtain i where "index_of n (names t) = Some i"
    by (cases "index_of n (names t)") (auto simp: index_of_None)
  with c show ?thesis by (simp add: assign_col_def)
qed

lemma run_conversions_total_count:
  "\<forall>n \<in> fst ` set cs. count_list (names t) n = 1 \<Longrightarrow> \<exists>t'. run_conversions cs t = Inr t'"
proof (induction cs arbitrary: t)
  case Nil then show ?case by simp
next
  case (Cons c cs)
  obtain n f d where c: "c = (n, f, d)" by (cases c) auto
  with Cons.prems obtain t1 where a: "assign_col n f d t = Inr t1"
    using assign_col_total_count[of t n f d] by auto
  from assign_col_names[OF a] Cons.prems
  have "\<forall>n \<in> fst ` set cs. count_list (names t1) n = 1" by auto
  from Cons.IH[OF this] a c show ?case by simp
qed

lemma times_wholeD:
  assumes "times_whole t" and "rect t" and "k < length (rows t)" and "p < length (cols t)"
    and "names t ! p \<in> set time_columns"
  shows "whole_second (cell_at (rows t ! k) p)"
proof -
  let ?r = "rows t ! k"
  from assms(2,3) have len: "length ?r = length (cols t)" by (simp add: rect_def list_all_length)
  from assms(1,3) have "list_all (\<lambda>(n, c). n \<in> set time_columns \<longrightarrow> whole_second c) (zip (names t) ?r)"
    by (simp add: times_whole_def list_all_length)
  moreover have "(names t ! p, ?r ! p) \<in> set (zip (names t) ?r)"
  proof -
    have pl: "p < length (zip (names t) ?r)" using assms(4) len by (simp add: names_def)
    from nth_mem[OF pl] pl show ?thesis by simp
  qed
  ultimately have "names t ! p \<in> set time_columns \<longrightarrow> whole_second (?r ! p)"
    by (auto simp: list_all_iff)
  with assms(4,5) len show ?thesis by (simp add: cell_at_def)
qed

text \<open>
  The fill does not raise on a normalised frame: a label it would reject is
  repeated under a numeric or object column, and either carries one of the six
  designated labels, which the conversions found once, or was rejected by the
  first fill already.
\<close>

lemma fill_missing_again:
  assumes "normalize_table sp m = Inr t" and "rect m"
  shows "\<exists>ft. fill_missing t = Inr ft"
proof -
  note N = normalize_props[OF assms]
  from assms(1) obtain fm where fm: "fill_missing m = Inr fm"
    by (rule normalize_table_InrD)
  then have ok: "\<forall>c \<in> set (cols m). is_number (snd c) \<or> is_object (snd c)
                   \<longrightarrow> count_list (names m) (fst c) = 1"
    using fill_missing_Inr_iff[of m] by blast
  have "count_list (names t) (fst c) = 1"
    if c: "c \<in> set (cols t)" and sel: "is_number (snd c) \<or> is_object (snd c)" for c
  proof -
    from c obtain p where p: "p < length (cols t)" and cp: "cols t ! p = c"
      unfolding in_set_conv_nth by blast
    from p N(4) have pm: "p < length (cols m)" by simp
    have ce: "c = (names t ! p, dtypes t ! p)" using cp cols_nth[OF p] by simp
    have fc: "fst c = names m ! p" by (simp add: ce N(1))
    have sc: "snd c = dtypes t ! p" by (simp add: ce)
    show ?thesis
    proof (cases "names m ! p \<in> set (date_columns @ time_columns)")
      case True
      then have "names m ! p \<in> fst ` set (conversions sp)" by (simp only: fst_conversions)
      from N(7)[OF this] show ?thesis by (simp add: fc N(1))
    next
      case False
      have "dtypes t ! p = dtypes m ! p" using N(6)[OF pm] dtype_of_other[OF False] by simp
      with sel sc have "is_number (snd (cols m ! p)) \<or> is_object (snd (cols m ! p))"
        using pm by (simp add: cols_nth)
      moreover have "cols m ! p \<in> set (cols m)" using pm by simp
      ultimately have "count_list (names m) (fst (cols m ! p)) = 1" using ok by blast
      then show ?thesis using pm by (simp add: fc N(1) cols_nth)
    qed
  qed
  then show ?thesis using fill_missing_Inr_iff[of t] by blast
qed

text \<open>
  Claim C2, as amended. Take a rectangular merged frame that normalises, and
  suppose that in the normalised frame no time of day of the four designated time
  columns has a fraction of a second. Then normalising the normalised frame again,
  at any later time, returns it unchanged: the same labels, dtypes and cells, the
  parsed date and time columns included.
\<close>

theorem normalize_again_is_noop_for_whole_seconds:
  assumes "normalize_table sp m = Inr t" and "rect m" and "times_whole t"
  shows "normalize_table sp' t = Inr t"
proof -
  note N = normalize_props[OF assms(1,2)]
  from fill_missing_again[OF assms(1,2)] obtain ft where ft: "fill_missing t = Inr ft" by blast
  have "names ft = names t" by (rule fill_missing_names[OF ft])
  then have "\<forall>n \<in> fst ` set (conversions sp'). count_list (names ft) n = 1"
    using N(7) N(1) by (simp add: fst_conversions)
  from run_conversions_total_count[OF this]
  obtain t' where t': "normalize_table sp' t = Inr t'"
    by (auto simp: normalize_table_def convert_types_def ft)
  note N' = normalize_props[OF t' N(2)]
  have cell: "cell_at (rows t' ! k) p = cell_at (rows t ! k) p"
    if k: "k < length (rows t)" and p: "p < length (cols t)" for k p
  proof -
    from k p N(3) N(4) have km: "k < length (rows m)" and pm: "p < length (cols m)" by simp_all
    let ?c = "conv_of (conversions sp) (names m ! p) (fill_cell (dtypes m ! p) (cell_at (rows m ! k) p))"
    have ct: "cell_at (rows t ! k) p = ?c" by (rule N(5)[OF km pm])
    have sw: "names m ! p \<in> set time_columns \<longrightarrow> whole_second ?c"
      using times_wholeD[OF assms(3) N(2) k p] N(1) ct by simp
    have "cell_at (rows t' ! k) p =
        conv_of (conversions sp') (names t ! p) (fill_cell (dtypes t ! p) (cell_at (rows t ! k) p))"
      by (rule N'(5)[OF k p])
    also have "\<dots> = conv_of (conversions sp') (names m ! p)
        (fill_cell (dtype_of (conversions sp) (names m ! p) (dtypes m ! p)) ?c)"
      using N(1) ct N(6)[OF pm] by simp
    also have "\<dots> = ?c" by (rule normalize_cell_again[OF sw])
    finally show ?thesis using ct by simp
  qed
  have rows_eq: "rows t' = rows t"
  proof (rule nth_equalityI)
    show "length (rows t') = length (rows t)" by (rule N'(3))
  next
    fix k assume "k < length (rows t')"
    then have k: "k < length (rows t)" using N'(3) by simp
    have l1: "length (rows t ! k) = length (cols t)"
      using N(2) k by (simp add: rect_def list_all_length)
    have l2: "length (rows t' ! k) = length (cols t)"
      using N'(2) k N'(3) N'(4) by (simp add: rect_def list_all_length)
    show "rows t' ! k = rows t ! k"
    proof (rule nth_equalityI)
      show "length (rows t' ! k) = length (rows t ! k)" using l1 l2 by simp
    next
      fix p assume "p < length (rows t' ! k)"
      then have p: "p < length (cols t)" using l2 by simp
      from cell[OF k p] p l1 l2 show "rows t' ! k ! p = rows t ! k ! p"
        by (simp add: cell_at_def)
    qed
  qed
  have cols_eq: "cols t' = cols t"
  proof (rule nth_equalityI)
    show "length (cols t') = length (cols t)" by (rule N'(4))
  next
    fix p assume "p < length (cols t')"
    then have p: "p < length (cols t)" using N'(4) by simp
    then have pm: "p < length (cols m)" using N(4) by simp
    have same: "dtype_of (conversions sp') n d = dtype_of (conversions sp) n d" for n d
      by (simp add: dtype_of_def conversions_def)
    have "dtypes t' ! p = dtype_of (conversions sp') (names t ! p) (dtypes t ! p)"
      by (rule N'(6)[OF p])
    also have "\<dots> = dtypes t ! p" using N(1) N(6)[OF pm] by (simp add: same dtype_of_again)
    finally have d: "dtypes t' ! p = dtypes t ! p" .
    have "cols t' ! p = (names t' ! p, dtypes t' ! p)" using p N'(4) by (simp add: cols_nth)
    also have "\<dots> = (names t ! p, dtypes t ! p)" using N'(1) d by simp
    also have "\<dots> = cols t ! p" using p by (simp add: cols_nth)
    finally show "cols t' ! p = cols t ! p" .
  qed
  from rows_eq cols_eq have "t' = t" by simp
  with t' show ?thesis by simp
qed

text \<open>
  The claim as stated fails for a start-time column that is a datetime64 column
  with a fraction of a second: the first pass keeps the time of day with its
  microseconds, and the second pass, which parses \<open>str()\<close> of that time against
  \<^verbatim>\<open>%H:%M:%S\<close>, turns it into the missing marker.
\<close>

theorem normalize_idempotence_counterexample:
  "preprocess_data strptime_eg (Some forest_xl_eg) (Some grassland_xl_eg)
     = Inr (Some normalized_xl_eg)
   \<and> normalize_table strptime_eg merged_xl_eg = Inr normalized_xl_eg
   \<and> cell_at (rows normalized_xl_eg ! 0) 2 = Time (Tod 6 15 0 250)
   \<and> normalize_table strptime_eg normalized_xl_eg = Inr renormalized_xl_eg
   \<and> cell_at (rows renormalized_xl_eg ! 0) 2 = NA
   \<and> renormalized_xl_eg \<noteq> normalized_xl_eg"
  by code_simp

theorem normalize_again_is_noop_for_whole_seconds_witness:
  "normalize_table strptime_eg merged_eg = Inr normalized_eg \<and> rect merged_eg
   \<and> times_whole normalized_eg
   \<and> normalize_table strptime_eg normalized_eg = Inr normalized_eg"
proof -
  have h1: "normalize_table strptime_eg merged_eg = Inr normalized_eg" by code_simp
  have h2: "rect merged_eg" by code_simp
  have h3: "times_whole normalized_eg" by code_simp
  from h1 h2 h3 normalize_again_is_noop_for_whole_seconds[OF h1 h2 h3]
  show ?thesis by (intro conjI)
qed

section \<open>The loader of app.py\<close>

lemma read_workbook_missing: "fs p = None \<Longrightarrow> read_workbook fs p = Inl FileNotFound"
  by (simp add: read_workbook_def)

lemma preprocess_data_None:
  "a = None \<or> b = None \<Longrightarrow> preprocess_data sp a b = Inr None"
  by (cases a; cases b) (auto simp: preprocess_data_def)

lemma load_data_some_None:
  assumes "fs p1 = None \<or> fs p2 = None"
  shows "fst (fst (load_data fs p1 p2)) = None \<or> snd (fst (load_data fs p1 p2)) = None"
  using assms
  by (auto simp: load_data_def read_workbook_missing split: sum.splits)

text \<open>
  Claim C4, as amended. If the forest source cannot be located, \<open>load_data\<close> reports
  the missing file and returns no table at all. If the grassland source cannot be
  located while the forest source loads, it reports the missing file and returns
  the forest table together with \<open>None\<close>. Whenever either source cannot be
  located at least one result is \<open>None\<close>, \<open>preprocess_data\<close> on the two results
  returns \<open>None\<close>, and the script produces no processed table: neither the join
  nor the normalisation runs.
\<close>

theorem load_data_missing_source:
  "(fs p1 = None \<longrightarrow> load_data fs p1 p2 = ((None, None), [FileNotFound]))
   \<and> (fs p2 = None \<longrightarrow>
        (\<forall>t. read_workbook fs p1 = Inr t \<longrightarrow>
           load_data fs p1 p2 = ((Some t, None), [FileNotFound])))
   \<and> (fs p1 = None \<or> fs p2 = None \<longrightarrow>
        (fst (fst (load_data fs p1 p2)) = None \<or> snd (fst (load_data fs p1 p2)) = None)
      \<and> preprocess_data sp (fst (fst (load_data fs p1 p2))) (snd (fst (load_data fs p1 p2))) = Inr None
      \<and> run_app sp fs p1 p2 = Inr None)"
proof -
  have a: "fs p1 = None \<longrightarrow> load_data fs p1 p2 = ((None, None), [FileNotFound])"
    by (simp add: load_data_def read_workbook_missing)
  have b: "fs p2 = None \<longrightarrow>
        (\<forall>t. read_workbook fs p1 = Inr t \<longrightarrow>
           load_data fs p1 p2 = ((Some t, None), [FileNotFound]))"
    by (simp add: load_data_def read_workbook_missing)
  have c: "(fst (fst (load_data fs p1 p2)) = None \<or> snd (fst (load_data fs p1 p2)) = None)
      \<and> preprocess_data sp (fst (fst (load_data fs p1 p2))) (snd (fst (load_data fs p1 p2))) = Inr None
      \<and> run_app sp fs p1 p2 = Inr None"
    if m: "fs p1 = None \<or> fs p2 = None"
  proof -
    have n: "fst (fst (load_data fs p1 p2)) = None \<or> snd (fst (load_data fs p1 p2)) = None"
      by (rule load_data_some_None[OF m])
    have p: "preprocess_data sp (fst (fst (load_data fs p1 p2))) (snd (fst (load_data fs p1 p2))) = Inr None"
      by (rule preprocess_data_None[OF n])
    obtain x y where xy: "fst (load_data fs p1 p2) = (x, y)" by (cases "fst (load_data fs p1 p2)")
    with n have "x = None \<or> y = None" by simp
    then have r: "run_app sp fs p1 p2 = Inr None" by (auto simp: run_app_def xy split: option.splits)
    from n p r show ?thesis by (intro conjI)
  qed
  then have c': "fs p1 = None \<or> fs p2 = None \<longrightarrow>
        (fst (fst (load_data fs p1 p2)) = None \<or> snd (fst (load_data fs p1 p2)) = None)
      \<and> preprocess_data sp (fst (fst (load_data fs p1 p2))) (snd (fst (load_data fs p1 p2))) = Inr None
      \<and> run_app sp fs p1 p2 = Inr None"
    by (rule impI)
  from a b c' show ?thesis by (intro conjI)
qed

text \<open>
  The claim as stated fails when only the grassland workbook is missing: the
  forest table is returned beside \<open>None\<close>.
\<close>

theorem load_data_partial_result_counterexample:
  "files_eg ''grassland.xlsx'' = None
   \<and> load_data files_eg ''forest.xlsx'' ''grassland.xlsx'' = ((Some forest_eg, None), [FileNotFound])
   \<and> fst (fst (load_data files_eg ''forest.xlsx'' ''grassland.xlsx'')) \<noteq> None"
  by code_simp

theorem load_data_missing_source_witness:
  "files_eg ''grassland.xlsx'' = None
   \<and> read_workbook files_eg ''forest.xlsx'' = Inr forest_eg
   \<and> load_data files_eg ''forest.xlsx'' ''grassland.xlsx'' = ((Some forest_eg, None), [FileNotFound])
   \<and> load_data files_eg ''grassland.xlsx'' ''forest.xlsx'' = ((None, None), [FileNotFound])
   \<and> run_app strptime_eg files_eg ''forest.xlsx'' ''grassland.xlsx'' = Inr None"
proof -
  have h1: "files_eg ''grassland.xlsx'' = None" by code_simp
  have h2: "read_workbook files_eg ''forest.xlsx'' = Inr forest_eg" by code_simp
  note T = load_data_missing_source[of files_eg "''forest.xlsx''" "''grassland.xlsx''" strptime_eg]
  note T' = load_data_missing_source[of files_eg "''grassland.xlsx''" "''forest.xlsx''" strptime_eg]
  have a: "load_data files_eg ''forest.xlsx'' ''grassland.xlsx'' = ((Some forest_eg, None), [FileNotFound])"
    using T[THEN conjunct2, THEN conjunct1, rule_format, OF h1 h2] .
  have b: "load_data files_eg ''grassland.xlsx'' ''forest.xlsx'' = ((None, None), [FileNotFound])"
    using T'[THEN conjunct1, rule_format, OF h1] .
  have c: "run_app strptime_eg files_eg ''forest.xlsx'' ''grassland.xlsx'' = Inr None"
    using T[THEN conjunct2, THEN conjunct2, rule_format, OF disjI2, OF h1] by (elim conjE)
  show ?thesis using h1 h2 a b c by (intro conjI)
qed

section \<open>The side-by-side frame of birds.py\<close>

lemma names_to_datetime_at: "names (to_datetime_at infer t p) = names t"
proof (cases "p < length (cols t)")
  case True
  have "(map fst (cols t))[p := map fst (cols t) ! p] = map fst (cols t)" by (rule list_update_id)
  with True show ?thesis
    by (simp add: to_datetime_at_def names_def Let_def map_update)
next
  case False
  then have "length (cols t) \<le> p" by simp
  then have "(cols t)[p := (fst (cols t ! p), DDatetime)] = cols t" by (rule list_update_beyond)
  then show ?thesis by (simp add: to_datetime_at_def names_def Let_def)
qed

lemma length_rows_to_datetime_at: "length (rows (to_datetime_at infer t p)) = length (rows t)"
  by (simp add: to_datetime_at_def Let_def)

lemma foldl_to_datetime_at:
  "names (foldl (to_datetime_at infer) t ps) = names t
   \<and> length (rows (foldl (to_datetime_at infer) t ps)) = length (rows t)"
  by (induction ps arbitrary: t) (simp_all add: names_to_datetime_at length_rows_to_datetime_at)

lemma convert_date_cols_props:
  "names (convert_date_cols infer t) = names t"
  "length (rows (convert_date_cols infer t)) = length (rows t)"
  by (simp_all add: convert_date_cols_def foldl_to_datetime_at)

lemma add_suffix_props:
  "names (add_suffix sfx t) = map (\<lambda>n. n @ sfx) (names t)"
  "rows (add_suffix sfx t) = rows t"
  by (simp_all add: add_suffix_def names_def case_prod_unfold)

lemma take_range_index: "n \<le> k \<Longrightarrow> take n (range_index k) = range_index n"
  by (simp add: range_index_def take_map)

text \<open>
  Claim C10, as amended. When both files load and both frames carry the default
  row index, \<open>load_and_preprocess_data\<close> reports nothing and its merged frame has
  exactly as many rows as the shorter of the two inputs. Row \<open>k\<close> of the merged
  frame is row \<open>k\<close> of the forest frame followed by row \<open>k\<close> of the grassland
  frame, whatever their cells hold: no key is consulted, and the rows of the longer
  input beyond that length are in no merged row. The two habitat frames are
  returned in full, every label of the merged frame carries its habitat's suffix,
  and the merged frame has the default row index.
\<close>

theorem merged_is_truncated_side_by_side:
  assumes "fs forest_path = Some (Csv f)" and "fs grassland_path = Some (Csv g)"
    and "default_index f" and "default_index g"
    and "load_and_preprocess_data infer fs forest_path grassland_path
           = ((merged_df, forest_df, grassland_df), msgs)"
  shows "length (rows (snd merged_df)) = min (length (rows (snd f))) (length (rows (snd g)))
       \<and> length (rows (snd forest_df)) = length (rows (snd f))
       \<and> length (rows (snd grassland_df)) = length (rows (snd g))
       \<and> (\<forall>k < length (rows (snd merged_df)).
            rows (snd merged_df) ! k = rows (snd forest_df) ! k @ rows (snd grassland_df) ! k)
       \<and> names (snd merged_df)
           = map (\<lambda>n. n @ ''_forest'') (names (snd f)) @ map (\<lambda>n. n @ ''_grassland'') (names (snd g))
       \<and> default_index merged_df
       \<and> msgs = []"
proof -
  define ft where "ft = convert_date_cols infer (add_suffix ''_forest'' (snd f))"
  define gt where "gt = convert_date_cols infer (add_suffix ''_grassland'' (snd g))"
  define n where "n = min (length (rows ft)) (length (rows gt))"
  have lf: "length (rows ft) = length (rows (snd f))"
    by (simp add: ft_def convert_date_cols_props add_suffix_props)
  have lg: "length (rows gt) = length (rows (snd g))"
    by (simp add: gt_def convert_date_cols_props add_suffix_props)
  have hf: "fst (head n (fst f, ft)) = range_index n"
    using assms(3) lf by (simp add: head_def default_index_def n_def take_range_index)
  have hg: "fst (head n (fst g, gt)) = range_index n"
    using assms(4) lg by (simp add: head_def default_index_def n_def take_range_index)
  have cc: "concat_side_by_side (head n (fst f, ft)) (head n (fst g, gt))
          = Inr (range_index n, \<lparr> cols = cols ft @ cols gt,
                                  rows = map2 (\<lambda>ra rb. ra @ rb) (take n (rows ft)) (take n (rows gt)) \<rparr>)"
    unfolding concat_side_by_side_def hf hg by (simp add: head_def)
  from assms(1,2,5) have fd: "forest_df = (fst f, ft)" and gd: "grassland_df = (fst g, gt)"
    and md: "merged_df = (range_index n, \<lparr> cols = cols ft @ cols gt,
                                  rows = map2 (\<lambda>ra rb. ra @ rb) (take n (rows ft)) (take n (rows gt)) \<rparr>)"
    and ms: "msgs = []"
    using cc unfolding load_and_preprocess_data_def ft_def gt_def n_def
    by (simp_all add: Let_def)
  have rm: "rows (snd merged_df) = map2 (\<lambda>ra rb. ra @ rb) (take n (rows ft)) (take n (rows gt))"
    by (simp add: md)
  have lm: "length (rows (snd merged_df)) = min (length (rows (snd f))) (length (rows (snd g)))"
    unfolding rm using lf lg by (simp add: n_def)
  have nth: "rows (snd merged_df) ! k = rows (snd forest_df) ! k @ rows (snd grassland_df) ! k"
    if "k < length (rows (snd merged_df))" for k
    using that lm lf lg unfolding rm by (simp add: fd gd n_def)
  have nm: "names (snd merged_df)
           = map (\<lambda>n. n @ ''_forest'') (names (snd f)) @ map (\<lambda>n. n @ ''_grassland'') (names (snd g))"
  proof -
    have "names (snd merged_df) = names ft @ names gt" by (simp add: md names_def)
    then show ?thesis by (simp add: ft_def gt_def convert_date_cols_props add_suffix_props)
  qed
  have di: "default_index merged_df"
    using lf lg by (simp add: default_index_def md n_def)
  have l1: "length (rows (snd forest_df)) = length (rows (snd f))" by (simp add: fd lf)
  have l2: "length (rows (snd grassland_df)) = length (rows (snd g))" by (simp add: gd lg)
  from lm l1 l2 nth nm di ms show ?thesis by blast
qed

text \<open>
  The claim as stated fails for two files whose rows begin with an observation
  code: \<open>read_csv\<close> takes the codes as row labels, \<open>pd.concat\<close> lays the two frames
  out on the four codes, and the merged frame of two frames of two rows has four
  rows, each with one habitat's cells missing.
\<close>

theorem merged_by_row_label_counterexample:
  "coded_files_eg ''forest.csv'' = Some (Csv forest_coded_eg)
   \<and> coded_files_eg ''grassland.csv'' = Some (Csv grassland_coded_eg)
   \<and> load_and_preprocess_data infer_nothing coded_files_eg ''forest.csv'' ''grassland.csv''
       = ((merged_coded_eg, (fst forest_coded_eg, add_suffix ''_forest'' (snd forest_coded_eg)),
           (fst grassland_coded_eg, add_suffix ''_grassland'' (snd grassland_coded_eg))), [])
   \<and> length (rows (snd forest_coded_eg)) = 2 \<and> length (rows (snd grassland_coded_eg)) = 2
   \<and> length (rows (snd merged_coded_eg)) = 4
   \<and> rows (snd merged_coded_eg) ! 0 = [Num 1, Str ''Wood Thrush'', NA, NA]"
  by code_simp

theorem merged_is_truncated_side_by_side_witness:
  "csv_files_eg ''forest.csv'' = Some (Csv forest_csv_eg)
   \<and> csv_files_eg ''grassland.csv'' = Some (Csv grassland_csv_eg)
   \<and> default_index forest_csv_eg \<and> default_index grassland_csv_eg
   \<and> load_and_preprocess_data infer_nothing csv_files_eg ''forest.csv'' ''grassland.csv''
       = ((merged_csv_eg, (fst forest_csv_eg, add_suffix ''_forest'' (snd forest_csv_eg)),
           (fst grassland_csv_eg, add_suffix ''_grassland'' (snd grassland_csv_eg))), [])
   \<and> length (rows (snd forest_csv_eg)) = 3 \<and> length (rows (snd grassland_csv_eg)) = 2
   \<and> length (rows (snd merged_csv_eg)) = 2
   \<and> rows (snd merged_csv_eg) ! 1 = [Num 2, Str ''Ovenbird'', Num 1, Str ''Dickcissel'']"
proof -
  have h1: "csv_files_eg ''forest.csv'' = Some (Csv forest_csv_eg)" by code_simp
  have h2: "csv_files_eg ''grassland.csv'' = Some (Csv grassland_csv_eg)" by code_simp
  have d1: "default_index forest_csv_eg" by code_simp
  have d2: "default_index grassland_csv_eg" by code_simp
  have h3: "load_and_preprocess_data infer_nothing csv_files_eg ''forest.csv'' ''grassland.csv''
       = ((merged_csv_eg, (fst forest_csv_eg, add_suffix ''_forest'' (snd forest_csv_eg)),
           (fst grassland_csv_eg, add_suffix ''_grassland'' (snd grassland_csv_eg))), [])"
    by code_simp
  have l1: "length (rows (snd forest_csv_eg)) = 3" by code_simp
  have l2: "length (rows (snd grassland_csv_eg)) = 2" by code_simp
  have r1: "rows (snd (fst forest_csv_eg, add_suffix ''_forest'' (snd forest_csv_eg))) ! 1
              = [Num 2, Str ''Ovenbird'']"
    by code_simp
  have r2: "rows (snd (fst grassland_csv_eg, add_suffix ''_grassland'' (snd grassland_csv_eg))) ! 1
              = [Num 1, Str ''Dickcissel'']"
    by code_simp
  note T = merged_is_truncated_side_by_side[OF h1 h2 d1 d2 h3]
  have a: "length (rows (snd merged_csv_eg)) = 2"
    using T[THEN conjunct1] by (simp add: l1 l2)
  have "rows (snd merged_csv_eg) ! 1
          = rows (snd (fst forest_csv_eg, add_suffix ''_forest'' (snd forest_csv_eg))) ! 1
            @ rows (snd (fst grassland_csv_eg, add_suffix ''_grassland'' (snd grassland_csv_eg))) ! 1"
    using T[THEN conjunct2, THEN conjunct2, THEN conjunct2, THEN conjunct1, rule_format, of 1] a
    by simp
  then have b: "rows (snd merged_csv_eg) ! 1 = [Num 2, Str ''Ovenbird'', Num 1, Str ''Dickcissel'']"
    by (simp only: r1 r2 append_Cons append_Nil)
  show ?thesis using h1 h2 d1 d2 h3 l1 l2 a b by (intro conjI)
qed

end
